theory Spec2Isabelle
  imports Main "HOL-Library.Sublist"
begin

section \<open>Regular expressions, as the script uses them\<close>

text \<open>
  The script interprets the changer's status text with Python's \<^verbatim>\<open>re\<close> module only.
  Every pattern of the source is a sequence of single characters, character classes,
  repetitions of a single character class (\<^verbatim>\<open>.*\<close>, \<^verbatim>\<open>\d+\<close>, \<^verbatim>\<open> *\<close>, \<^verbatim>\<open>.+?\<close>), capturing
  groups that are not nested, and \<^verbatim>\<open>^\<close>. The matcher below is a backtracking matcher for
  exactly that fragment, with Python's priorities: a greedy repetition tries the longest
  run first, a lazy one the shortest, and the first success wins.

  Strings are lists of bytes: \<^verbatim>\<open>\d\<close> and \<^verbatim>\<open>\w\<close> are the ASCII classes. Text that the
  script splices into a pattern (a slot number, a drive index, the cleaning prefix) is
  embedded with \<open>lit\<close>, character by character; this is Python's reading whenever
  that text holds no regular-expression metacharacter.
\<close>

abbreviation NL :: char where "NL \<equiv> CHR 0x0A"

datatype cset = Chr char | AnyChar | Digit | WordChar | OneOf string

fun in_cset :: "cset \<Rightarrow> char \<Rightarrow> bool" where
  "in_cset (Chr c) x = (x = c)"
| "in_cset AnyChar x = (x \<noteq> NL)"
| "in_cset Digit x = (x \<in> set ''0123456789'')"
| "in_cset WordChar x =
     (x \<in> set ''abcdefghijklmnopqrstuvwxyzABCDEFGHIJKLMNOPQRSTUVWXYZ0123456789_'')"
| "in_cset (OneOf cs) x = (x \<in> set cs)"

datatype item = One cset | Star cset | Plus cset | PlusLazy cset | GOpen | GClose | Bol

type_synonym regex = "item list"

definition lit :: "string \<Rightarrow> regex" where
  "lit s = map (\<lambda>c. One (Chr c)) s"

text \<open>
  A matcher state is (the texts of the groups still open, innermost first, group 0
  last; the input not yet read; the groups already closed, in closing order).
\<close>

type_synonym mstate = "string list \<times> string \<times> string list"

fun first_some :: "('a \<Rightarrow> 'b option) \<Rightarrow> 'a list \<Rightarrow> 'b option" where
  "first_some f [] = None"
| "first_some f (x # xs) = (case f x of Some y \<Rightarrow> Some y | None \<Rightarrow> first_some f xs)"

text \<open>\<open>splits c [] s\<close>: every way to read a run of \<open>c\<close> off the front of \<open>s\<close>, longest first.\<close>

fun splits :: "cset \<Rightarrow> string \<Rightarrow> string \<Rightarrow> (string \<times> string) list" where
  "splits c acc [] = [(acc, [])]"
| "splits c acc (x # xs) =
     (if in_cset c x then splits c (acc @ [x]) xs @ [(acc, x # xs)] else [(acc, x # xs)])"

fun consume :: "string list \<Rightarrow> string list \<Rightarrow> string \<times> string \<Rightarrow> mstate" where
  "consume opens caps (u, r) = (map (\<lambda>g. g @ u) opens, r, caps)"

text \<open>\<open>m p b st\<close>: match \<open>p\<close> from \<open>st\<close>; \<open>b\<close> says the attempt starts at offset 0.\<close>

fun m :: "regex \<Rightarrow> bool \<Rightarrow> mstate \<Rightarrow> mstate option" where
  "m [] b st = Some st"
| "m (One c # p) b (opens, rest, caps) =
     (case rest of [] \<Rightarrow> None
      | x # xs \<Rightarrow> if in_cset c x then m p b (map (\<lambda>g. g @ [x]) opens, xs, caps) else None)"
| "m (Star c # p) b (opens, rest, caps) =
     first_some (\<lambda>st. m p b st) (map (consume opens caps) (splits c [] rest))"
| "m (Plus c # p) b (opens, rest, caps) =
     first_some (\<lambda>st. m p b st) (map (consume opens caps) (butlast (splits c [] rest)))"
| "m (PlusLazy c # p) b (opens, rest, caps) =
     first_some (\<lambda>st. m p b st) (map (consume opens caps) (rev (butlast (splits c [] rest))))"
| "m (GOpen # p) b (opens, rest, caps) = m p b ([] # opens, rest, caps)"
| "m (GClose # p) b (opens, rest, caps) =
     (case opens of g # g' # gs \<Rightarrow> m p b (g' # gs, rest, caps @ [g]) | _ \<Rightarrow> None)"
| "m (Bol # p) b (opens, rest, caps) =
     (if b \<and> last opens = [] then m p b (opens, rest, caps) else None)"

definition group0 :: "mstate \<Rightarrow> string" where
  "group0 r = last (fst r)"

definition group :: "mstate \<Rightarrow> nat \<Rightarrow> string" where
  "group r k = (snd (snd r)) ! (k - 1)"

text \<open>\<^verbatim>\<open>re.search\<close>: the leftmost offset at which the pattern matches.\<close>

fun search_aux :: "regex \<Rightarrow> bool \<Rightarrow> string \<Rightarrow> mstate option" where
  "search_aux p b [] = m p b ([[]], [], [])"
| "search_aux p b (x # xs) =
     (case m p b ([[]], x # xs, []) of Some r \<Rightarrow> Some r | None \<Rightarrow> search_aux p False xs)"

definition re_search :: "regex \<Rightarrow> string \<Rightarrow> mstate option" where
  "re_search p s = search_aux p True s"

text \<open>
  \<^verbatim>\<open>re.findall\<close> and \<^verbatim>\<open>re.sub\<close> scan the subject from left to right; \<open>k\<close> counts the
  characters still covered by the match found last. After an empty match the scan moves
  on by one character, as Python's does.
\<close>

fun findall_aux :: "regex \<Rightarrow> bool \<Rightarrow> nat \<Rightarrow> string \<Rightarrow> mstate list" where
  "findall_aux p b k [] =
     (if k = 0 then (case m p b ([[]], [], []) of Some r \<Rightarrow> [r] | None \<Rightarrow> []) else [])"
| "findall_aux p b k (x # xs) =
     (if 0 < k then findall_aux p False (k - 1) xs
      else (case m p b ([[]], x # xs, []) of
              Some r \<Rightarrow> r # findall_aux p False (length (group0 r) - 1) xs
            | None \<Rightarrow> findall_aux p False 0 xs))"

definition re_findall :: "regex \<Rightarrow> string \<Rightarrow> mstate list" where
  "re_findall p s = findall_aux p True 0 s"

datatype titem = TLit string | TGrp nat

fun expand :: "titem list \<Rightarrow> mstate \<Rightarrow> string" where
  "expand [] r = []"
| "expand (TLit s # t) r = s @ expand t r"
| "expand (TGrp k # t) r = group r k @ expand t r"

fun sub_aux :: "regex \<Rightarrow> titem list \<Rightarrow> bool \<Rightarrow> nat \<Rightarrow> string \<Rightarrow> string" where
  "sub_aux p t b k [] =
     (if k = 0 then (case m p b ([[]], [], []) of Some r \<Rightarrow> expand t r | None \<Rightarrow> []) else [])"
| "sub_aux p t b k (x # xs) =
     (if 0 < k then sub_aux p t False (k - 1) xs
      else (case m p b ([[]], x # xs, []) of
              Some r \<Rightarrow> expand t r @ (if group0 r = [] then [x] else [])
                          @ sub_aux p t False (length (group0 r) - 1) xs
            | None \<Rightarrow> x # sub_aux p t False 0 xs))"

definition re_sub :: "regex \<Rightarrow> titem list \<Rightarrow> string \<Rightarrow> string" where
  "re_sub p t s = sub_aux p t True 0 s"

text \<open>Python's \<^verbatim>\<open>k in s\<close> on strings, \<^verbatim>\<open>s.split()\<close> and \<^verbatim>\<open>s.rstrip('\n')\<close>.\<close>

fun contains :: "string \<Rightarrow> string \<Rightarrow> bool" where
  "contains k [] = (k = [])"
| "contains k (x # xs) = (prefix k (x # xs) \<or> contains k xs)"

definition is_space :: "char \<Rightarrow> bool" where
  "is_space c = (c \<in> set [CHR '' '', CHR 0x09, NL, CHR 0x0B, CHR 0x0C, CHR 0x0D,
                              CHR 0x1C, CHR 0x1D, CHR 0x1E, CHR 0x1F])"

fun split_ws :: "string \<Rightarrow> string \<Rightarrow> string list" where
  "split_ws w [] = (if w = [] then [] else [w])"
| "split_ws w (x # xs) =
     (if is_space x then (if w = [] then [] else [w]) @ split_ws [] xs
      else split_ws (w @ [x]) xs)"

definition rstrip_nl :: "string \<Rightarrow> string" where
  "rstrip_nl s = rev (dropWhile (\<lambda>c. c = NL) (rev s))"

section \<open>The process, its configuration and the outside world\<close>

text \<open>
  A run of the script ends in one of three ways: it runs to the end (or a function
  returns), it calls \<^verbatim>\<open>sys.exit(n)\<close>, or an exception nobody catches ends it.
  The external tools are the world: its answer to a command may depend on everything the
  process did before. What the process does is recorded as a trace of events. Writing to
  the log file is left out (the log is no part of the behaviour).
\<close>

datatype pyerr = AttributeError | UnboundLocalError | IndexError | TypeError | ValueError

datatype 'a res = Ret 'a | Exit int | Raise pyerr

record shell_result =
  returncode :: int
  stdout :: string
  stderr :: string

datatype event = Shell string | Sleep int | Print string | PrintUsage

type_synonym trace = "event list"

type_synonym world = "trace \<Rightarrow> string \<Rightarrow> shell_result"

text \<open>
  The configuration file's variables (the numbers are \<^verbatim>\<open>int(...)\<close> of the configured
  strings) and the command line. \<open>ready\<close> is the pattern \<^verbatim>\<open>get_ready_str()\<close> chose for
  the platform; \<open>pick\<close> is the index \<^verbatim>\<open>random.choice\<close> draws.
\<close>

record config =
  mtx_bin :: string
  mt_bin :: string
  tapeinfo_bin :: string
  lsscsi_bin :: string
  auto_clean :: bool
  chk_drive :: bool
  include_import_export :: bool
  inventory :: bool
  offline :: bool
  vxa_packetloader :: bool
  load_wait :: int
  clean_wait :: int
  offline_sleep :: int
  load_sleep :: int
  cln_str :: string

record args =
  chgr_device :: string
  mtx_cmd :: string
  slot :: string
  drive_device :: string
  drive_index :: string
  ready :: regex
  pick :: nat

definition cln_codes :: "string list" where
  "cln_codes = [''20'', ''21'']"

text \<open>The value of the global \<^verbatim>\<open>volume\<close>: a label, a pair of labels, or \<^verbatim>\<open>None\<close>.\<close>

datatype pyval = VStr string | VPair string string | VNone

definition get_shell_result :: "world \<Rightarrow> string \<Rightarrow> trace \<Rightarrow> shell_result \<times> trace" where
  "get_shell_result w cmd tr = (w tr cmd, tr @ [Shell cmd])"

definition then_do ::
  "'a res \<times> trace \<Rightarrow> ('a \<Rightarrow> trace \<Rightarrow> 'b res \<times> trace) \<Rightarrow> 'b res \<times> trace" where
  "then_do x f =
     (case x of (Ret v, tr) \<Rightarrow> f v tr
      | (Exit n, tr) \<Rightarrow> (Exit n, tr)
      | (Raise e, tr) \<Rightarrow> (Raise e, tr))"

text \<open>\<^verbatim>\<open>time.sleep\<close> refuses a negative length.\<close>

definition py_sleep :: "int \<Rightarrow> trace \<Rightarrow> unit res \<times> trace" where
  "py_sleep n tr = (if n < 0 then (Raise ValueError, tr) else (Ret (), tr @ [Sleep n]))"

text \<open>The exit status of the process.\<close>

fun exit_code :: "'a res \<Rightarrow> int" where
  "exit_code (Ret v) = 0"
| "exit_code (Exit n) = n"
| "exit_code (Raise e) = 1"

section \<open>Inventory: \<^verbatim>\<open>loaded\<close>, \<^verbatim>\<open>slots\<close>, \<^verbatim>\<open>list\<close>, \<^verbatim>\<open>listall\<close>\<close>

definition status_cmd :: "config \<Rightarrow> args \<Rightarrow> string" where
  "status_cmd c g = mtx_bin c @ '' -f '' @ chgr_device g @ '' status''"

text \<open>
  \<^verbatim>\<open>'Data Transfer Element ' + drive_index + ':Full.*'\<close> and
  \<^verbatim>\<open>'^Data Transfer Element.*Element (\d+) Loaded.*= (\w+)'\<close>.
\<close>

definition rx_loaded_line :: "string \<Rightarrow> regex" where
  "rx_loaded_line idx = lit ''Data Transfer Element '' @ lit idx @ lit '':Full'' @ [Star AnyChar]"

definition rx_loaded_parts :: regex where
  "rx_loaded_parts = [Bol] @ lit ''Data Transfer Element'' @ [Star AnyChar] @ lit ''Element ''
     @ [GOpen, Plus Digit, GClose] @ lit '' Loaded'' @ [Star AnyChar] @ lit ''= ''
     @ [GOpen, Plus WordChar, GClose]"

definition do_loaded :: "config \<Rightarrow> args \<Rightarrow> world \<Rightarrow> trace \<Rightarrow> string res \<times> trace" where
  "do_loaded c g w tr =
     (case get_shell_result w (status_cmd c g) tr of (result, tr1) \<Rightarrow>
        if returncode result \<noteq> 0
        then (Exit (returncode result), tr1 @ [Print (stderr result)])
        else (case re_search (rx_loaded_line (drive_index g)) (stdout result) of
                Some drive_loaded_line \<Rightarrow>
                  (case split_ws [] (re_sub rx_loaded_parts [TGrp 1, TLit '' '', TGrp 2]
                                      (group0 drive_loaded_line)) of
                     slot_loaded # vol_loaded # _ \<Rightarrow> (Ret slot_loaded, tr1)
                   | _ \<Rightarrow> (Raise IndexError, tr1))
              | None \<Rightarrow> (Ret ''0'', tr1)))"

text \<open>
  \<^verbatim>\<open>'Storage Changer.*'\<close> and \<^verbatim>\<open>'^Storage Changer.* Drives, (\d+) Slots.*'\<close>.
  \<^verbatim>\<open>slots_line.group(0)\<close> is evaluated whatever the search returned; on \<^verbatim>\<open>None\<close>
  that is an AttributeError.
\<close>

definition rx_changer :: regex where
  "rx_changer = lit ''Storage Changer'' @ [Star AnyChar]"

definition rx_changer_slots :: regex where
  "rx_changer_slots = [Bol] @ lit ''Storage Changer'' @ [Star AnyChar] @ lit '' Drives, ''
     @ [GOpen, Plus Digit, GClose] @ lit '' Slots'' @ [Star AnyChar]"

definition do_slots :: "config \<Rightarrow> args \<Rightarrow> world \<Rightarrow> trace \<Rightarrow> string res \<times> trace" where
  "do_slots c g w tr =
     (case get_shell_result w (status_cmd c g) tr of (result, tr1) \<Rightarrow>
        if returncode result \<noteq> 0 then (Exit (returncode result), tr1)
        else (case re_search rx_changer (stdout result) of
                None \<Rightarrow> (Raise AttributeError, tr1)
              | Some slots_line \<Rightarrow>
                  (Ret (re_sub rx_changer_slots [TGrp 1] (group0 slots_line)), tr1)))"

definition do_inventory :: "config \<Rightarrow> args \<Rightarrow> world \<Rightarrow> trace \<Rightarrow> unit res \<times> trace" where
  "do_inventory c g w tr =
     (case get_shell_result w (mtx_bin c @ '' -f '' @ chgr_device g @ '' inventory'') tr of
        (result, tr1) \<Rightarrow>
          if returncode result \<noteq> 0 then (Exit (returncode result), tr1) else (Ret (), tr1))"

text \<open>
  The status dump both listings read: the inventory command first when the library
  needs it, then the status command; either one failing ends the process with the
  tool's exit code.
\<close>

definition get_status :: "config \<Rightarrow> args \<Rightarrow> world \<Rightarrow> trace \<Rightarrow> string res \<times> trace" where
  "get_status c g w tr =
     then_do (if inventory c then do_inventory c g w tr else (Ret (), tr)) (\<lambda>_ tr1.
       case get_shell_result w (status_cmd c g) tr1 of (result, tr2) \<Rightarrow>
         if returncode result \<noteq> 0 then (Exit (returncode result), tr2)
         else (Ret (stdout result), tr2))"

text \<open>
  The patterns of \<^verbatim>\<open>do_list\<close>:
  \<^verbatim>\<open>'Data Transfer Element \d+:Full.*\w'\<close>,
  \<^verbatim>\<open>'Storage Element \d+:Full :.*\w'\<close>,
  \<^verbatim>\<open>'Storage Element \d+ IMPORT.EXPORT:Full.*\w'\<close>,
  \<^verbatim>\<open>'Data Transfer Element \d+:Full \(Storage Element (\d+) Loaded\)'\<close>,
  \<^verbatim>\<open>' *Storage Element [0-9]*:.*Full'\<close> and
  \<^verbatim>\<open>'Storage Element (\d+) IMPORT.EXPORT:Full :VolumeTag=(.*)'\<close>.
\<close>

definition rx_dt_full_line :: regex where
  "rx_dt_full_line = lit ''Data Transfer Element '' @ [Plus Digit] @ lit '':Full''
     @ [Star AnyChar, One WordChar]"

definition rx_st_full_line :: regex where
  "rx_st_full_line = lit ''Storage Element '' @ [Plus Digit] @ lit '':Full :''
     @ [Star AnyChar, One WordChar]"

definition rx_ie_full_line :: regex where
  "rx_ie_full_line = lit ''Storage Element '' @ [Plus Digit] @ lit '' IMPORT'' @ [One AnyChar]
     @ lit ''EXPORT:Full'' @ [Star AnyChar, One WordChar]"

definition rx_dt_loaded_from :: regex where
  "rx_dt_loaded_from = lit ''Data Transfer Element '' @ [Plus Digit]
     @ lit '':Full (Storage Element '' @ [GOpen, Plus Digit, GClose] @ lit '' Loaded)''"

definition rx_vxa_storage :: regex where
  "rx_vxa_storage = [Star (Chr CHR '' '')] @ lit ''Storage Element ''
     @ [Star (OneOf ''0123456789'')] @ lit '':'' @ [Star AnyChar] @ lit ''Full''"

definition rx_ie_full :: regex where
  "rx_ie_full = lit ''Storage Element '' @ [GOpen, Plus Digit, GClose] @ lit '' IMPORT''
     @ [One AnyChar] @ lit ''EXPORT:Full :VolumeTag='' @ [GOpen, Star AnyChar, GClose]"

text \<open>
  One round of the loop of \<^verbatim>\<open>do_list\<close>. The text of an element is added to the
  output in the \<^verbatim>\<open>else\<close> branch only.
\<close>

definition list_step :: "config \<Rightarrow> string \<Rightarrow> string \<Rightarrow> string \<Rightarrow> string" where
  "list_step c last_element mtx_elements_txt element =
     (let tmp_txt = re_sub rx_dt_loaded_from [TGrp 1] element;
          tmp_txt = re_sub (lit ''VolumeTag = '') [] tmp_txt
      in if vxa_packetloader c
         then (let tmp_txt = re_sub rx_vxa_storage [] tmp_txt;
                   tmp_txt = re_sub (lit ''Full :VolumeTag='') [] tmp_txt
               in mtx_elements_txt)
         else (let tmp_txt = (if include_import_export c
                              then re_sub rx_ie_full [TGrp 1, TLit '':'', TGrp 2] tmp_txt
                              else tmp_txt);
                   tmp_txt = re_sub (lit ''Storage Element '') [] tmp_txt;
                   tmp_txt = re_sub (lit ''Full :VolumeTag='') [] tmp_txt
               in mtx_elements_txt @ tmp_txt
                    @ (if element = last_element then [] else [NL])))"

definition do_list :: "config \<Rightarrow> args \<Rightarrow> world \<Rightarrow> trace \<Rightarrow> string res \<times> trace" where
  "do_list c g w tr =
     then_do (get_status c g w tr) (\<lambda>out tr1.
       let data_transfer_elements_list = map group0 (re_findall rx_dt_full_line out);
           storage_elements_list = map group0 (re_findall rx_st_full_line out);
           importexport_elements_list =
             (if include_import_export c then map group0 (re_findall rx_ie_full_line out)
              else []);
           mtx_elements_list = data_transfer_elements_list @ storage_elements_list
                                 @ importexport_elements_list
       in (Ret (foldl (list_step c (last mtx_elements_list)) [] mtx_elements_list), tr1))"

text \<open>
  The patterns of \<^verbatim>\<open>do_listall\<close>:
  \<^verbatim>\<open>'Data Transfer Element \d+:.*\w'\<close>, \<^verbatim>\<open>'Storage Element \d+:.*\w'\<close>,
  \<^verbatim>\<open>'Storage Element \d+ IMPORT.EXPORT.*\w'\<close>, and the six rewritings
  \<^verbatim>\<open>'Data Transfer Element (\d+):Empty'\<close>,
  \<^verbatim>\<open>'Data Transfer Element (\d+):Full \(Storage Element (\d+) Loaded\):VolumeTag = (.*)'\<close>,
  \<^verbatim>\<open>'Storage Element (\d+):Empty'\<close>, \<^verbatim>\<open>'Storage Element (\d+):Full :VolumeTag=(.*)'\<close>,
  \<^verbatim>\<open>'Storage Element (\d+) IMPORT.EXPORT:Empty'\<close>,
  \<^verbatim>\<open>'Storage Element (\d+) IMPORT.EXPORT:Full :VolumeTag=(.*)'\<close>.
\<close>

definition rx_dt_line :: regex where
  "rx_dt_line = lit ''Data Transfer Element '' @ [Plus Digit] @ lit '':''
     @ [Star AnyChar, One WordChar]"

definition rx_st_line :: regex where
  "rx_st_line = lit ''Storage Element '' @ [Plus Digit] @ lit '':''
     @ [Star AnyChar, One WordChar]"

definition rx_ie_line :: regex where
  "rx_ie_line = lit ''Storage Element '' @ [Plus Digit] @ lit '' IMPORT'' @ [One AnyChar]
     @ lit ''EXPORT'' @ [Star AnyChar, One WordChar]"

definition rx_dt_empty :: regex where
  "rx_dt_empty = lit ''Data Transfer Element '' @ [GOpen, Plus Digit, GClose] @ lit '':Empty''"

definition rx_dt_full :: regex where
  "rx_dt_full = lit ''Data Transfer Element '' @ [GOpen, Plus Digit, GClose]
     @ lit '':Full (Storage Element '' @ [GOpen, Plus Digit, GClose]
     @ lit '' Loaded):VolumeTag = '' @ [GOpen, Star AnyChar, GClose]"

definition rx_st_empty :: regex where
  "rx_st_empty = lit ''Storage Element '' @ [GOpen, Plus Digit, GClose] @ lit '':Empty''"

definition rx_st_full :: regex where
  "rx_st_full = lit ''Storage Element '' @ [GOpen, Plus Digit, GClose]
     @ lit '':Full :VolumeTag='' @ [GOpen, Star AnyChar, GClose]"

definition rx_ie_empty :: regex where
  "rx_ie_empty = lit ''Storage Element '' @ [GOpen, Plus Digit, GClose] @ lit '' IMPORT''
     @ [One AnyChar] @ lit ''EXPORT:Empty''"

definition listall_line :: "config \<Rightarrow> string \<Rightarrow> string" where
  "listall_line c element =
     (let tmp_txt = re_sub rx_dt_empty [TLit ''D:'', TGrp 1, TLit '':E''] element;
          tmp_txt = re_sub rx_dt_full
                      [TLit ''D:'', TGrp 1, TLit '':F:'', TGrp 2, TLit '':'', TGrp 3] tmp_txt;
          tmp_txt = re_sub rx_st_empty [TLit ''S:'', TGrp 1, TLit '':E''] tmp_txt;
          tmp_txt = re_sub rx_st_full [TLit ''S:'', TGrp 1, TLit '':F:'', TGrp 2] tmp_txt
      in if include_import_export c
         then (let tmp_txt = re_sub rx_ie_empty [TLit ''I:'', TGrp 1, TLit '':E''] tmp_txt
               in re_sub rx_ie_full [TLit ''I:'', TGrp 1, TLit '':F:'', TGrp 2] tmp_txt)
         else tmp_txt)"

definition listall_step :: "config \<Rightarrow> string \<Rightarrow> string \<Rightarrow> string \<Rightarrow> string" where
  "listall_step c last_element mtx_elements_txt element =
     mtx_elements_txt @ listall_line c element
       @ (if element = last_element then [] else [NL])"

definition listall_elements :: "config \<Rightarrow> string \<Rightarrow> string list" where
  "listall_elements c out =
     map group0 (re_findall rx_dt_line out) @ map group0 (re_findall rx_st_line out)
       @ (if include_import_export c then map group0 (re_findall rx_ie_line out) else [])"

definition do_listall :: "config \<Rightarrow> args \<Rightarrow> world \<Rightarrow> trace \<Rightarrow> string res \<times> trace" where
  "do_listall c g w tr =
     then_do (get_status c g w tr) (\<lambda>out tr1.
       let mtx_elements_list = listall_elements c out
       in (Ret (foldl (listall_step c (last mtx_elements_list)) [] mtx_elements_list), tr1))"

section \<open>Volume names\<close>

text \<open>
  \<^verbatim>\<open>do_getvolname\<close> takes one listing, keeps it in the global \<^verbatim>\<open>all_slots\<close> (returned
  here beside the value) and searches it with
  \<^verbatim>\<open>'[SI]:' + slot + ':.:(.*)'\<close>, \<^verbatim>\<open>'D:' + drive_index + ':F:\d+:(.*)'\<close> and
  \<^verbatim>\<open>'D:' + drive_index + ':.:' + slot + ':(.*)'\<close>.
\<close>

definition rx_slot_vol :: "string \<Rightarrow> regex" where
  "rx_slot_vol s = [One (OneOf ''SI'')] @ lit '':'' @ lit s @ lit '':'' @ [One AnyChar]
     @ lit '':'' @ [GOpen, Star AnyChar, GClose]"

definition rx_drive_vol :: "string \<Rightarrow> regex" where
  "rx_drive_vol idx = lit ''D:'' @ lit idx @ lit '':F:'' @ [Plus Digit] @ lit '':''
     @ [GOpen, Star AnyChar, GClose]"

definition rx_drive_slot_vol :: "string \<Rightarrow> string \<Rightarrow> regex" where
  "rx_drive_slot_vol idx s = lit ''D:'' @ lit idx @ lit '':'' @ [One AnyChar] @ lit '':''
     @ lit s @ lit '':'' @ [GOpen, Star AnyChar, GClose]"

definition vol_of :: "regex \<Rightarrow> string \<Rightarrow> string" where
  "vol_of p all_slots = (case re_search p all_slots of Some vol \<Rightarrow> group vol 1 | None \<Rightarrow> [])"

definition getvolname :: "args \<Rightarrow> string \<Rightarrow> pyval" where
  "getvolname g all_slots =
     (if mtx_cmd g = ''transfer''
      then VPair (vol_of (rx_slot_vol (slot g)) all_slots)
                 (vol_of (rx_slot_vol (drive_device g)) all_slots)
      else if mtx_cmd g = ''load''
      then (case re_search (rx_slot_vol (slot g)) all_slots of
              Some vol \<Rightarrow> VStr (group vol 1)
            | None \<Rightarrow>
                (case re_search (rx_drive_vol (drive_index g)) all_slots of
                   Some vol \<Rightarrow> VStr (group vol 1)
                 | None \<Rightarrow> VStr []))
      else if mtx_cmd g = ''unload''
      then VStr (vol_of (rx_drive_slot_vol (drive_index g) (slot g)) all_slots)
      else VNone)"

definition do_getvolname ::
  "config \<Rightarrow> args \<Rightarrow> world \<Rightarrow> trace \<Rightarrow> (pyval \<times> string) res \<times> trace" where
  "do_getvolname c g w tr =
     then_do (do_listall c g w tr) (\<lambda>all_slots tr1.
       (Ret (getvolname g all_slots, all_slots), tr1))"

section \<open>Waiting for the drive\<close>

text \<open>
  The loop of \<^verbatim>\<open>do_wait_for_drive\<close>: \<open>s\<close> counts the seconds slept; the loop ends by
  \<^verbatim>\<open>break\<close> when the drive's status shows the ready pattern, or when \<open>s\<close> has passed
  \<^verbatim>\<open>load_wait\<close>. It returns \<open>s\<close> as the loop left it.
\<close>

definition wait_cmd :: "config \<Rightarrow> args \<Rightarrow> string" where
  "wait_cmd c g = mt_bin c @ '' -f '' @ drive_device g @ '' status''"

function wait_loop :: "config \<Rightarrow> args \<Rightarrow> world \<Rightarrow> int \<Rightarrow> trace \<Rightarrow> int \<times> trace" where
  "wait_loop c g w s tr =
     (if s \<le> load_wait c
      then (case get_shell_result w (wait_cmd c g) tr of
              (result, tr1) \<Rightarrow>
                if re_search (ready g) (stdout result) \<noteq> None then (s, tr1)
                else wait_loop c g w (s + 1) (tr1 @ [Sleep 1]))
      else (s, tr))"
  by pat_completeness auto
termination
  by (relation "measure (\<lambda>(c, g, w, s, tr). nat (load_wait c + 1 - s))") auto

definition do_wait_for_drive :: "config \<Rightarrow> args \<Rightarrow> world \<Rightarrow> trace \<Rightarrow> int res \<times> trace" where
  "do_wait_for_drive c g w tr =
     (case wait_loop c g w 0 tr of (s, tr1) \<Rightarrow>
        if s = load_wait c + 1 then (Ret 1, tr1) else (Ret 0, tr1))"

section \<open>Cleaning\<close>

text \<open>
  \<^verbatim>\<open>chk_for_cln_tapes\<close>: \<^verbatim>\<open>'D:\d+:F:(\d+):(' + cln_str + '.*)'\<close> and
  \<^verbatim>\<open>'[SI]:(\d+):F:(' + cln_str + '.*)'\<close>, each match a pair (slot, volume).
\<close>

definition rx_cln_in_drive :: "string \<Rightarrow> regex" where
  "rx_cln_in_drive pre = lit ''D:'' @ [Plus Digit] @ lit '':F:'' @ [GOpen, Plus Digit, GClose]
     @ lit '':'' @ [GOpen] @ lit pre @ [Star AnyChar, GClose]"

definition rx_cln_in_slot :: "string \<Rightarrow> regex" where
  "rx_cln_in_slot pre = [One (OneOf ''SI'')] @ lit '':'' @ [GOpen, Plus Digit, GClose]
     @ lit '':F:'' @ [GOpen] @ lit pre @ [Star AnyChar, GClose]"

definition chk_for_cln_tapes :: "config \<Rightarrow> string \<Rightarrow> (string \<times> string) list" where
  "chk_for_cln_tapes c all_slots =
     map (\<lambda>r. (group r 1, group r 2)) (re_findall (rx_cln_in_drive (cln_str c)) all_slots)
     @ map (\<lambda>r. (group r 1, group r 2)) (re_findall (rx_cln_in_slot (cln_str c)) all_slots)"

text \<open>
  \<^verbatim>\<open>do_get_sg_node\<close>: \<^verbatim>\<open>st\<close> is assigned in three branches out of four; the pattern
  \<^verbatim>\<open>'.*' + st + ' .*(/dev/sg\d+)'\<close> is built after the \<^verbatim>\<open>lsscsi\<close> call, and reading a
  variable that was never assigned is an UnboundLocalError. The function returns the node,
  or the integer 1. The rewritings are \<^verbatim>\<open>'/dev/n*(st\d+)'\<close>,
  \<^verbatim>\<open>'/dev/tape/by-id/scsi-3(.+?)-.*'\<close> and \<^verbatim>\<open>'.* -> .*/n*(st\d+).*'\<close>.
\<close>

datatype sgnode = SgNode string | SgInt int

definition rx_dev_st :: regex where
  "rx_dev_st = lit ''/dev/'' @ [Star (Chr CHR ''n''), GOpen] @ lit ''st'' @ [Plus Digit, GClose]"

definition rx_by_id :: regex where
  "rx_by_id = lit ''/dev/tape/by-id/scsi-3'' @ [GOpen, PlusLazy AnyChar, GClose] @ lit ''-''
     @ [Star AnyChar]"

definition rx_ls_link :: regex where
  "rx_ls_link = [Star AnyChar] @ lit '' -> '' @ [Star AnyChar] @ lit ''/''
     @ [Star (Chr CHR ''n''), GOpen] @ lit ''st'' @ [Plus Digit, GClose, Star AnyChar]"

definition rx_sg :: "string \<Rightarrow> regex" where
  "rx_sg st = [Star AnyChar] @ lit st @ lit '' '' @ [Star AnyChar, GOpen] @ lit ''/dev/sg''
     @ [Plus Digit, GClose]"

definition do_get_sg_node :: "config \<Rightarrow> args \<Rightarrow> world \<Rightarrow> trace \<Rightarrow> sgnode res \<times> trace" where
  "do_get_sg_node c g w tr =
     (case (if contains ''/dev/st'' (drive_device g) \<or> contains ''/dev/nst'' (drive_device g)
            then (Some (re_sub rx_dev_st [TGrp 1] (drive_device g)), tr)
            else if contains ''/by-id'' (drive_device g)
            then (Some (re_sub rx_by_id [TGrp 1] (drive_device g)), tr)
            else if contains ''/by-path'' (drive_device g)
            then (case get_shell_result w (''ls -l '' @ drive_device g) tr of
                    (result, tr1) \<Rightarrow>
                      (Some (re_sub rx_ls_link [TGrp 1] (rstrip_nl (stdout result))), tr1))
            else (None, tr)) of
        (st, tr1) \<Rightarrow>
          (case get_shell_result w (lsscsi_bin c @ '' -ug'') tr1 of
             (result, tr2) \<Rightarrow>
               (case st of
                  None \<Rightarrow> (Raise UnboundLocalError, tr2)
                | Some st' \<Rightarrow>
                    (case re_search (rx_sg st') (stdout result) of
                       Some sg_search \<Rightarrow> (Ret (SgNode (group sg_search 1)), tr2)
                     | None \<Rightarrow> (Ret (SgInt 1), tr2)))))"

text \<open>
  \<^verbatim>\<open>'TapeAlert\[(\d+)\]: +(.*)'\<close>; each alert is a pair (code, text), and
  \<^verbatim>\<open>cln_code in i\<close> asks whether the pair has the code as one of its two components.
\<close>

definition rx_tapealert :: regex where
  "rx_tapealert = lit ''TapeAlert['' @ [GOpen, Plus Digit, GClose] @ lit '']:''
     @ [Plus (Chr CHR '' ''), GOpen, Star AnyChar, GClose]"

definition needs_cleaning :: "(string \<times> string) list \<Rightarrow> bool" where
  "needs_cleaning tapealerts =
     list_ex (\<lambda>cln_code. list_ex (\<lambda>i. cln_code = fst i \<or> cln_code = snd i) tapealerts)
       cln_codes"

text \<open>\<^verbatim>\<open>'^D:(\d+):F:' + cln_slot\<close>, searched in \<^verbatim>\<open>all_slots\<close> without the multi-line flag.\<close>

definition rx_cln_tape_in_drv :: "string \<Rightarrow> regex" where
  "rx_cln_tape_in_drv cln_slot = [Bol] @ lit ''D:'' @ [GOpen, Plus Digit, GClose] @ lit '':F:''
     @ lit cln_slot"

definition load_cmd :: "config \<Rightarrow> args \<Rightarrow> string \<Rightarrow> string \<Rightarrow> string" where
  "load_cmd c g slt drv_idx =
     mtx_bin c @ '' -f '' @ chgr_device g @ '' load '' @ slt @ '' '' @ drv_idx"

definition unload_cmd :: "config \<Rightarrow> args \<Rightarrow> string \<Rightarrow> string \<Rightarrow> string" where
  "unload_cmd c g slt drv_idx =
     mtx_bin c @ '' -f '' @ chgr_device g @ '' unload '' @ slt @ '' '' @ drv_idx"

definition offline_cmd :: "config \<Rightarrow> string \<Rightarrow> string" where
  "offline_cmd c drv_dev = mt_bin c @ '' -f '' @ drv_dev @ '' offline''"

definition fail_txt_load :: "string \<Rightarrow> string \<Rightarrow> string \<Rightarrow> string \<Rightarrow> string" where
  "fail_txt_load slt drv_dev drv_idx vol =
     ''Failed to load drive device '' @ drv_dev @ '' (drive index: '' @ drv_idx @ '') ''
       @ (if vol \<noteq> [] then ''with volume ('' @ vol @ '') '' else []) @ ''from slot '' @ slt @ ''.''"

definition fail_txt_unload :: "string \<Rightarrow> string \<Rightarrow> string \<Rightarrow> string \<Rightarrow> string" where
  "fail_txt_unload slt drv_dev drv_idx vol =
     ''Failed to unload drive device '' @ drv_dev @ '' (drive index: '' @ drv_idx @ '') ''
       @ (if vol \<noteq> [] then ''with volume ('' @ vol @ '') '' else []) @ ''to slot '' @ slt @ ''.''"

text \<open>The mt offline command that \<^verbatim>\<open>do_unload\<close> sends first when \<^verbatim>\<open>offline\<close> is set.\<close>

definition send_offline :: "config \<Rightarrow> world \<Rightarrow> string \<Rightarrow> trace \<Rightarrow> unit res \<times> trace" where
  "send_offline c w drv_dev tr =
     (if offline c
      then (case get_shell_result w (offline_cmd c drv_dev) tr of
              (result, tr1) \<Rightarrow>
                if offline_sleep c \<noteq> 0 then py_sleep (offline_sleep c) tr1 else (Ret (), tr1))
      else (Ret (), tr))"

section \<open>Load, unload and the check of the drive\<close>

text \<open>
  \<^verbatim>\<open>do_unload\<close>, \<^verbatim>\<open>do_checkdrive\<close>, \<^verbatim>\<open>do_clean\<close> and \<^verbatim>\<open>do_load\<close> call each other. An
  argument left out in a call is \<open>None\<close> here and stands for the global of that name.
  \<^verbatim>\<open>do_load\<close> returns nothing when it loads a cleaning tape.
\<close>

function do_unload ::
    "config \<Rightarrow> args \<Rightarrow> world \<Rightarrow> string \<Rightarrow> string \<Rightarrow> string option \<Rightarrow> string option
       \<Rightarrow> string option \<Rightarrow> string option \<Rightarrow> bool \<Rightarrow> trace \<Rightarrow> int res \<times> trace"
  and do_checkdrive ::
    "config \<Rightarrow> args \<Rightarrow> world \<Rightarrow> string \<Rightarrow> string \<Rightarrow> trace \<Rightarrow> int res \<times> trace"
  and do_clean ::
    "config \<Rightarrow> args \<Rightarrow> world \<Rightarrow> string \<Rightarrow> string \<Rightarrow> (string \<times> string) list \<Rightarrow> trace
       \<Rightarrow> unit res \<times> trace"
  and do_load ::
    "config \<Rightarrow> args \<Rightarrow> world \<Rightarrow> string \<Rightarrow> string \<Rightarrow> string option \<Rightarrow> string option
       \<Rightarrow> string option \<Rightarrow> string option \<Rightarrow> bool \<Rightarrow> trace \<Rightarrow> int option res \<times> trace"
where
  "do_unload c g w all_slots volume slt0 drv_dev0 drv_idx0 vol0 cln tr =
     (let slt = (case slt0 of None \<Rightarrow> slot g | Some x \<Rightarrow> x);
          drv_dev = (case drv_dev0 of None \<Rightarrow> drive_device g | Some x \<Rightarrow> x);
          drv_idx = (case drv_idx0 of None \<Rightarrow> drive_index g | Some x \<Rightarrow> x);
          vol = (case vol0 of None \<Rightarrow> volume | Some x \<Rightarrow> x)
      in then_do (send_offline c w drv_dev tr) (\<lambda>_ tr1.
           case get_shell_result w (unload_cmd c g slt drv_idx) tr1 of (result, tr2) \<Rightarrow>
             if returncode result \<noteq> 0
             then (Ret (returncode result),
                   tr2 @ [Print (fail_txt_unload slt drv_dev drv_idx vol @ '' Err: ''
                                   @ stderr result)])
             else if cln then (Ret (returncode result), tr2)
             else if chk_drive c
             then then_do (do_checkdrive c g w all_slots volume tr2) (\<lambda>checkdrive tr3.
                    if checkdrive = 1 then (Ret 0, tr3) else (Ret (returncode result), tr3))
             else (Ret (returncode result), tr2)))"
| "do_checkdrive c g w all_slots volume tr =
     (let cln_tapes = chk_for_cln_tapes c all_slots
      in if auto_clean c \<and> length cln_tapes = 0 then (Ret 1, tr)
         else then_do (do_get_sg_node c g w tr) (\<lambda>sg tr1.
           case sg of
             SgInt n \<Rightarrow> (if n = 1 then (Ret 1, tr1) else (Raise TypeError, tr1))
           | SgNode sg' \<Rightarrow>
               (case get_shell_result w (tapeinfo_bin c @ '' -f '' @ sg') tr1 of
                  (result, tr2) \<Rightarrow>
                    (let tapealerts = map (\<lambda>r. (group r 1, group r 2))
                                        (re_findall rx_tapealert (stdout result))
                     in if 0 < length tapealerts \<and> needs_cleaning tapealerts \<and> auto_clean c
                        then then_do (do_clean c g w all_slots volume cln_tapes tr2)
                               (\<lambda>_ tr3. (Ret 0, tr3))
                        else (Ret 0, tr2)))))"
| "do_clean c g w all_slots volume cln_tapes tr =
     (if cln_tapes = [] then (Raise IndexError, tr)
      else (let cln_tuple = cln_tapes ! (pick g mod length cln_tapes);
                cln_slot = fst cln_tuple;
                cln_vol = snd cln_tuple
            in then_do
                 (case re_search (rx_cln_tape_in_drv cln_slot) all_slots of
                    Some cln_tape_in_drv \<Rightarrow>
                      then_do (do_unload c g w all_slots volume (Some cln_slot) (Some [])
                                 (Some (group cln_tape_in_drv 1)) (Some cln_vol) True tr)
                        (\<lambda>_ tr1. (Ret (), tr1))
                  | None \<Rightarrow> (Ret (), tr))
                 (\<lambda>_ tr1.
                    then_do (do_load c g w all_slots volume (Some cln_slot)
                               (Some (drive_device g)) (Some (drive_index g)) (Some cln_vol)
                               True tr1)
                      (\<lambda>_ tr2. (Ret (), tr2)))))"
| "do_load c g w all_slots volume slt0 drv_dev0 drv_idx0 vol0 cln tr =
     (let slt = (case slt0 of None \<Rightarrow> slot g | Some x \<Rightarrow> x);
          drv_dev = (case drv_dev0 of None \<Rightarrow> drive_device g | Some x \<Rightarrow> x);
          drv_idx = (case drv_idx0 of None \<Rightarrow> drive_index g | Some x \<Rightarrow> x);
          vol = (case vol0 of None \<Rightarrow> volume | Some x \<Rightarrow> x)
      in case get_shell_result w (load_cmd c g slt drv_idx) tr of (result, tr1) \<Rightarrow>
           if returncode result \<noteq> 0
           then (Exit (returncode result),
                 tr1 @ [Print (fail_txt_load slt drv_dev drv_idx vol @ '' Err: ''
                                 @ stderr result)])
           else if cln
           then then_do (py_sleep (clean_wait c) tr1) (\<lambda>_ tr2.
                  then_do (do_unload c g w all_slots volume (Some slt) (Some drv_dev)
                             (Some drv_idx) (Some vol) True tr2)
                    (\<lambda>_ tr3. (Ret None, tr3)))
           else then_do (if load_sleep c \<noteq> 0 then py_sleep (load_sleep c) tr1
                         else (Ret (), tr1))
                  (\<lambda>_ tr2. then_do (do_wait_for_drive c g w tr2) (\<lambda>r tr3. (Ret (Some r), tr3))))"
  by pat_completeness auto
termination
  by (relation "measure (\<lambda>x. case x of
        Inl (Inl (c, g, w, a, v, s, d, i, vl, cln, tr)) \<Rightarrow> (if cln then 0 else 5)
      | Inl (Inr _) \<Rightarrow> 4
      | Inr (Inl _) \<Rightarrow> 3
      | Inr (Inr (c, g, w, a, v, s, d, i, vl, cln, tr)) \<Rightarrow> (if cln then 1 else 0))") auto

declare do_unload.simps [simp del] do_checkdrive.simps [simp del] do_clean.simps [simp del]
  do_load.simps [simp del] wait_loop.simps [simp del]

section \<open>Transfer and the dispatch of the command\<close>

definition transfer_cmd :: "config \<Rightarrow> args \<Rightarrow> string" where
  "transfer_cmd c g =
     mtx_bin c @ '' -f '' @ chgr_device g @ '' transfer '' @ slot g @ '' '' @ drive_device g"

text \<open>
  \<^verbatim>\<open>do_transfer\<close> reads the pair \<^verbatim>\<open>volume\<close> that \<^verbatim>\<open>do_getvolname\<close> built: the label
  at the source slot and the label at the destination slot.
\<close>

definition do_transfer ::
  "config \<Rightarrow> args \<Rightarrow> world \<Rightarrow> string \<times> string \<Rightarrow> trace \<Rightarrow> int res \<times> trace" where
  "do_transfer c g w volume tr =
     (if fst volume = [] \<or> snd volume \<noteq> [] then (Exit 1, tr)
      else (case get_shell_result w (transfer_cmd c g) tr of (result, tr1) \<Rightarrow>
              if returncode result \<noteq> 0 then (Ret (returncode result), tr1)
              else (Ret 0, tr1)))"

definition print_opt_errors_command :: "args \<Rightarrow> string" where
  "print_opt_errors_command g =
     ''The command provided ('' @ mtx_cmd g @ '') is not a valid command.''"

text \<open>
  The script from the point where the command line and the configuration are read and
  \<^verbatim>\<open>ready\<close> is set: the volume names for the four commands that log them, then the
  dispatch. \<^verbatim>\<open>load\<close> and \<^verbatim>\<open>unload\<close> pass their result to \<^verbatim>\<open>sys.exit\<close>;
  \<^verbatim>\<open>transfer\<close> calls \<^verbatim>\<open>do_transfer()\<close> as a statement, and the script ends after it.
\<close>

definition main :: "config \<Rightarrow> args \<Rightarrow> world \<Rightarrow> unit res \<times> trace" where
  "main c g w =
     then_do (if mtx_cmd g \<in> set [''load'', ''loaded'', ''unload'', ''transfer'']
              then do_getvolname c g w [] else (Ret (VNone, []), []))
       (\<lambda>(volume, all_slots) tr.
          if mtx_cmd g = ''list''
          then then_do (do_list c g w tr) (\<lambda>out tr1. (Ret (), tr1 @ [Print out]))
          else if mtx_cmd g = ''listall''
          then then_do (do_listall c g w tr) (\<lambda>out tr1. (Ret (), tr1 @ [Print out]))
          else if mtx_cmd g = ''slots''
          then then_do (do_slots c g w tr) (\<lambda>out tr1. (Ret (), tr1 @ [Print out]))
          else if mtx_cmd g = ''loaded''
          then then_do (do_loaded c g w tr) (\<lambda>out tr1. (Ret (), tr1 @ [Print out]))
          else if mtx_cmd g = ''load''
          then (case volume of
                  VStr v \<Rightarrow>
                    then_do (do_load c g w all_slots v None None None None False tr)
                      (\<lambda>result tr1. (case result of Some n \<Rightarrow> (Exit n, tr1)
                                       | None \<Rightarrow> (Exit 0, tr1)))
                | _ \<Rightarrow> (Raise TypeError, tr))
          else if mtx_cmd g = ''unload''
          then (case volume of
                  VStr v \<Rightarrow>
                    then_do (do_unload c g w all_slots v None None None None False tr)
                      (\<lambda>result tr1. (Exit result, tr1))
                | _ \<Rightarrow> (Raise TypeError, tr))
          else if mtx_cmd g = ''transfer''
          then (case volume of
                  VPair src_vol dst_vol \<Rightarrow>
                    then_do (do_transfer c g w (src_vol, dst_vol) tr)
                      (\<lambda>_ tr1. (Ret (), tr1))
                | _ \<Rightarrow> (Raise TypeError, tr))
          else (Exit 1, tr @ [Print ([NL] @ print_opt_errors_command g), PrintUsage]))"

section \<open>Example runs\<close>

text \<open>
  A small library for the concrete runs below: a world that answers each command from a
  table, whatever happened before, and a configuration with drive checking and automatic
  cleaning switched on.
\<close>

definition ok :: "string \<Rightarrow> shell_result" where
  "ok out = \<lparr>returncode = 0, stdout = out, stderr = []\<rparr>"

definition failed :: "int \<Rightarrow> string \<Rightarrow> shell_result" where
  "failed n err = \<lparr>returncode = n, stdout = [], stderr = err\<rparr>"

definition world_of :: "(string \<times> shell_result) list \<Rightarrow> world" where
  "world_of tbl tr cmd =
     (case map_of tbl cmd of Some r \<Rightarrow> r | None \<Rightarrow> failed 127 ''not found'')"

definition cfg0 :: config where
  "cfg0 = \<lparr>mtx_bin = ''mtx'', mt_bin = ''mt'', tapeinfo_bin = ''tapeinfo'',
     lsscsi_bin = ''lsscsi'', auto_clean = True, chk_drive = True,
     include_import_export = False, inventory = False, offline = False,
     vxa_packetloader = False, load_wait = 2, clean_wait = 0, offline_sleep = 0,
     load_sleep = 0, cln_str = ''CLN''\<rparr>"

definition args0 :: "string \<Rightarrow> string \<Rightarrow> string \<Rightarrow> string \<Rightarrow> args" where
  "args0 cmd s dev idx = \<lparr>chgr_device = ''/dev/sg3'', mtx_cmd = cmd, slot = s,
     drive_device = dev, drive_index = idx, ready = lit ''ONLINE'', pick = 0\<rparr>"

definition status1 :: string where
  "status1 = ''Data Transfer Element 0:Empty'' @ [NL]
     @ ''Storage Element 1:Full :VolumeTag=VOL001'' @ [NL]
     @ ''Storage Element 2:Empty'' @ [NL]"

definition world1 :: world where
  "world1 = world_of
     [(''mtx -f /dev/sg3 status'', ok status1),
      (''mtx -f /dev/sg3 transfer 1 2'', failed 1 ''mtx: MOVE MEDIUM failed'')]"

text \<open>A drive that holds a volume from slot 5, for a load of slot 7.\<close>

definition status2 :: string where
  "status2 = ''Data Transfer Element 0:Full (Storage Element 5 Loaded):VolumeTag = VOLA'' @ [NL]
     @ ''Storage Element 5:Empty'' @ [NL]
     @ ''Storage Element 7:Empty'' @ [NL]"

definition world2 :: world where
  "world2 = world_of [(''mtx -f /dev/sg3 status'', ok status2)]"

text \<open>
  Two drives: drive 0 holds VOL002 from slot 2, drive 1 holds the cleaning tape CLN001
  from slot 3. Drive 0 reports that it needs cleaning. Slot 3 is empty, so a load from it
  fails as long as the cleaning tape sits in drive 1.
\<close>

definition status3 :: string where
  "status3 =
     ''Data Transfer Element 0:Full (Storage Element 2 Loaded):VolumeTag = VOL002'' @ [NL]
     @ ''Data Transfer Element 1:Full (Storage Element 3 Loaded):VolumeTag = CLN001'' @ [NL]
     @ ''Storage Element 1:Full :VolumeTag=VOL001'' @ [NL]
     @ ''Storage Element 2:Empty'' @ [NL]
     @ ''Storage Element 3:Empty'' @ [NL]"

definition lsscsi_out :: string where
  "lsscsi_out = ''[3:0:0:0] tape IBM ULT3580-TD5 /dev/st0 /dev/sg4'' @ [NL]
     @ ''[3:0:1:0] tape IBM ULT3580-TD5 /dev/st1 /dev/sg5'' @ [NL]"

definition tapeinfo_out :: string where
  "tapeinfo_out = ''Product Type: Tape Drive'' @ [NL]
     @ ''TapeAlert[20]: Clean Now: The tape drive needs cleaning.'' @ [NL]"

definition world3 :: world where
  "world3 = world_of
     [(''mtx -f /dev/sg3 status'', ok status3),
      (''mtx -f /dev/sg3 unload 2 0'', ok []),
      (''lsscsi -ug'', ok lsscsi_out),
      (''tapeinfo -f /dev/sg4'', ok tapeinfo_out),
      (''mtx -f /dev/sg3 unload 3 1'', ok []),
      (''mtx -f /dev/sg3 load 3 0'', failed 1 ''source Element Address 3 is Empty''),
      (''mtx -f /dev/sg3 unload 3 0'', ok [])]"

text \<open>The same library with the drives' contents exchanged: the cleaning tape in drive 0.\<close>

definition status4 :: string where
  "status4 =
     ''Data Transfer Element 0:Full (Storage Element 3 Loaded):VolumeTag = CLN001'' @ [NL]
     @ ''Data Transfer Element 1:Full (Storage Element 2 Loaded):VolumeTag = VOL002'' @ [NL]
     @ ''Storage Element 1:Full :VolumeTag=VOL001'' @ [NL]
     @ ''Storage Element 2:Empty'' @ [NL]
     @ ''Storage Element 3:Empty'' @ [NL]"

definition world4 :: world where
  "world4 = world_of
     [(''mtx -f /dev/sg3 status'', ok status4),
      (''mtx -f /dev/sg3 unload 2 1'', ok []),
      (''lsscsi -ug'', ok lsscsi_out),
      (''tapeinfo -f /dev/sg5'', ok tapeinfo_out),
      (''mtx -f /dev/sg3 unload 3 0'', ok []),
      (''mtx -f /dev/sg3 load 3 1'', ok []),
      (''mtx -f /dev/sg3 unload 3 1'', ok [])]"

text \<open>
  The readiness poll: \<open>polls c g k\<close> is the trace of \<open>k\<close> queries that found the drive
  not ready, and \<open>ready_at c g w tr k\<close> says that the query after them shows the ready
  pattern. A drive that is ready at the third query, and one that never is.
\<close>

definition polls :: "config \<Rightarrow> args \<Rightarrow> nat \<Rightarrow> trace" where
  "polls c g k = concat (replicate k [Shell (wait_cmd c g), Sleep 1])"

definition ready_at :: "config \<Rightarrow> args \<Rightarrow> world \<Rightarrow> trace \<Rightarrow> nat \<Rightarrow> bool" where
  "ready_at c g w tr k =
     (re_search (ready g) (stdout (w (tr @ polls c g k) (wait_cmd c g))) \<noteq> None)"

definition world_slow :: world where
  "world_slow tr cmd =
     (if length tr = 4 then ok ''General status bits on (41010000): BOT ONLINE IM_REP_EN''
      else ok ''mt: /dev/nst0: Input/output error'')"

definition world_stuck :: world where
  "world_stuck tr cmd = ok ''mt: /dev/nst0: Input/output error''"

section \<open>Well-formed status dumps\<close>

text \<open>
  The status dump of a library, as the specification describes it: one line per element,
  the drives first, then the storage slots, then the import/export slots. An element has
  a number; a drive that is full names the slot its volume came from and the volume's
  label, a slot that is full names the label. Numbers are written in digits, labels in
  word characters.
\<close>

datatype element =
    DataTransfer string "(string \<times> string) option"
  | Storage string "string option"
  | ImportExport string "string option"

definition is_number :: "string \<Rightarrow> bool" where
  "is_number n = (n \<noteq> [] \<and> list_all (in_cset Digit) n)"

definition is_label :: "string \<Rightarrow> bool" where
  "is_label v = (v \<noteq> [] \<and> list_all (in_cset WordChar) v)"

fun wf_element :: "element \<Rightarrow> bool" where
  "wf_element (DataTransfer n None) = is_number n"
| "wf_element (DataTransfer n (Some (s, v))) = (is_number n \<and> is_number s \<and> is_label v)"
| "wf_element (Storage n None) = is_number n"
| "wf_element (Storage n (Some v)) = (is_number n \<and> is_label v)"
| "wf_element (ImportExport n None) = is_number n"
| "wf_element (ImportExport n (Some v)) = (is_number n \<and> is_label v)"

fun is_dt :: "element \<Rightarrow> bool" where
  "is_dt (DataTransfer n x) = True"
| "is_dt e = False"

fun is_st :: "element \<Rightarrow> bool" where
  "is_st (Storage n x) = True"
| "is_st e = False"

fun is_ie :: "element \<Rightarrow> bool" where
  "is_ie (ImportExport n x) = True"
| "is_ie e = False"

text \<open>The line of an element in the status dump, and its line in the full listing.\<close>

fun raw_line :: "element \<Rightarrow> string" where
  "raw_line (DataTransfer n None) = ''Data Transfer Element '' @ n @ '':Empty''"
| "raw_line (DataTransfer n (Some (s, v))) =
     ''Data Transfer Element '' @ n @ '':Full (Storage Element '' @ s
       @ '' Loaded):VolumeTag = '' @ v"
| "raw_line (Storage n None) = ''Storage Element '' @ n @ '':Empty''"
| "raw_line (Storage n (Some v)) = ''Storage Element '' @ n @ '':Full :VolumeTag='' @ v"
| "raw_line (ImportExport n None) = ''Storage Element '' @ n @ '' IMPORT/EXPORT:Empty''"
| "raw_line (ImportExport n (Some v)) =
     ''Storage Element '' @ n @ '' IMPORT/EXPORT:Full :VolumeTag='' @ v"

fun token :: "element \<Rightarrow> string" where
  "token (DataTransfer n None) = ''D:'' @ n @ '':E''"
| "token (DataTransfer n (Some (s, v))) = ''D:'' @ n @ '':F:'' @ s @ '':'' @ v"
| "token (Storage n None) = ''S:'' @ n @ '':E''"
| "token (Storage n (Some v)) = ''S:'' @ n @ '':F:'' @ v"
| "token (ImportExport n None) = ''I:'' @ n @ '':E''"
| "token (ImportExport n (Some v)) = ''I:'' @ n @ '':F:'' @ v"

fun join_lines :: "string list \<Rightarrow> string" where
  "join_lines [] = []"
| "join_lines [l] = l"
| "join_lines (l # l' # ls) = l @ NL # join_lines (l' # ls)"

text \<open>
  An item that cannot read a newline and does not ask for the start of the text; a
  pattern made of such items matches within one line. \<open>with_tail t\<close> puts \<open>t\<close> behind
  what a match left unread.
\<close>

fun item_nlfree :: "item \<Rightarrow> bool" where
  "item_nlfree (One c) = (\<not> in_cset c NL)"
| "item_nlfree (Star c) = (\<not> in_cset c NL)"
| "item_nlfree (Plus c) = (\<not> in_cset c NL)"
| "item_nlfree (PlusLazy c) = (\<not> in_cset c NL)"
| "item_nlfree GOpen = True"
| "item_nlfree GClose = True"
| "item_nlfree Bol = False"

definition nlfree :: "regex \<Rightarrow> bool" where
  "nlfree p = list_all item_nlfree p"

definition with_tail :: "string \<Rightarrow> mstate \<Rightarrow> mstate" where
  "with_tail t st = (case st of (opens, rest, caps) \<Rightarrow> (opens, rest @ t, caps))"

text \<open>A library with two drives, two storage slots and two import/export slots.\<close>

definition drives5 :: "element list" where
  "drives5 = [DataTransfer ''0'' (Some (''5'', ''G03005TA'')), DataTransfer ''1'' None]"

definition slots5 :: "element list" where
  "slots5 = [Storage ''5'' None, Storage ''6'' (Some ''G03006TA'')]"

definition ports5 :: "element list" where
  "ports5 = [ImportExport ''41'' (Some ''G03029TA''), ImportExport ''42'' None]"

definition status5 :: string where
  "status5 =
     ''Data Transfer Element 0:Full (Storage Element 5 Loaded):VolumeTag = G03005TA'' @ [NL]
     @ ''Data Transfer Element 1:Empty'' @ [NL]
     @ ''Storage Element 5:Empty'' @ [NL]
     @ ''Storage Element 6:Full :VolumeTag=G03006TA'' @ [NL]
     @ ''Storage Element 41 IMPORT/EXPORT:Full :VolumeTag=G03029TA'' @ [NL]
     @ ''Storage Element 42 IMPORT/EXPORT:Empty''"

definition world5 :: world where
  "world5 = world_of [(''mtx -f /dev/sg3 status'', ok status5)]"

section \<open>Basic facts\<close>

lemma lit_Nil [simp]: "lit [] = []"
  by (simp add: lit_def)

lemma lit_Cons [simp]: "lit (x # xs) = One (Chr x) # lit xs"
  by (simp add: lit_def)

lemma lit_append: "lit (xs @ ys) = lit xs @ lit ys"
  by (simp add: lit_def)

lemma then_do_Ret [simp]: "then_do (Ret v, tr) f = f v tr"
  by (simp add: then_do_def)

lemma then_do_Exit [simp]: "then_do (Exit n, tr) f = (Exit n, tr)"
  by (simp add: then_do_def)

lemma then_do_Raise [simp]: "then_do (Raise e, tr) f = (Raise e, tr)"
  by (simp add: then_do_def)

text \<open>A pattern that starts with literal text matches only where that text stands.\<close>

lemma m_lit:
  "m (lit K @ p) b (opens, rest, caps) =
     (if prefix K rest then m p b (map (\<lambda>g. g @ K) opens, drop (length K) rest, caps)
      else None)"
proof (induction K arbitrary: opens rest)
  case Nil
  then show ?case by simp
next
  case (Cons k K)
  show ?case
  proof (cases rest)
    case Nil
    then show ?thesis by simp
  next
    case (Cons x xs)
    then show ?thesis using Cons.IH [of "map (\<lambda>g. g @ [k]) opens" xs]
      by (simp add: comp_def)
  qed
qed

lemma search_lit_none:
  "\<not> contains K s \<Longrightarrow> search_aux (lit K @ p) b s = None"
proof (induction s arbitrary: b)
  case Nil
  then show ?case by (simp add: m_lit)
next
  case (Cons x xs)
  then show ?case by (simp add: m_lit)
qed

section \<open>The transfer guard\<close>

text \<open>
  C1. Whatever labels the source and the destination resolve to, \<^verbatim>\<open>do_transfer\<close> runs
  the transfer command exactly when the source label is not empty and the destination
  label is empty, and then returns the command's exit code; in every other case the
  process exits with code 1 and nothing is run: the trace is what it was.
\<close>

theorem transfer_guard:
  "do_transfer c g w (src, dst) tr =
     (if src \<noteq> [] \<and> dst = []
      then (Ret (returncode (w tr (transfer_cmd c g))), tr @ [Shell (transfer_cmd c g)])
      else (Exit 1, tr))"
  by (simp add: do_transfer_def get_shell_result_def)

theorem transfer_guard_witness:
  "do_transfer cfg0 (args0 ''transfer'' ''1'' ''2'' ''0'') world1 (''VOL001'', []) []
     = (Ret 1, [Shell ''mtx -f /dev/sg3 transfer 1 2''])
   \<and> do_transfer cfg0 (args0 ''transfer'' ''2'' ''1'' ''0'') world1 ([], ''VOL001'') []
     = (Exit 1, [])"
  by (simp add: transfer_guard transfer_cmd_def cfg0_def args0_def world1_def world_of_def
        failed_def)

text \<open>
  C2. A transfer that passes the guard and whose tool fails: slot 1 holds VOL001, slot 2
  is empty, and the transfer command exits with 1. \<^verbatim>\<open>do_transfer\<close> returns that 1, but
  the dispatch drops the value: the script runs to its end and the process exits with 0.
\<close>

theorem transfer_failure_exits_zero:
  "main cfg0 (args0 ''transfer'' ''1'' ''2'' ''0'') world1
     = (Ret (), [Shell ''mtx -f /dev/sg3 status'', Shell ''mtx -f /dev/sg3 transfer 1 2''])
   \<and> exit_code (fst (main cfg0 (args0 ''transfer'' ''1'' ''2'' ''0'') world1)) = 0
   \<and> returncode (world1 [Shell ''mtx -f /dev/sg3 status''] ''mtx -f /dev/sg3 transfer 1 2'') = 1"
  by code_simp

section \<open>The number of slots\<close>

text \<open>
  C4. A status dump without the words \<^verbatim>\<open>Storage Changer\<close>: the search returns
  \<^verbatim>\<open>None\<close>, and \<^verbatim>\<open>do_slots\<close> ends in an AttributeError instead of an empty result.
\<close>

lemma do_slots_no_summary:
  assumes "returncode (w tr (status_cmd c g)) = 0"
      and "\<not> contains ''Storage Changer'' (stdout (w tr (status_cmd c g)))"
  shows "do_slots c g w tr = (Raise AttributeError, tr @ [Shell (status_cmd c g)])"
  using assms search_lit_none [of "''Storage Changer''" _ "[Star AnyChar]" True]
  by (simp add: do_slots_def get_shell_result_def re_search_def rx_changer_def)

theorem do_slots_raises:
  "do_slots cfg0 (args0 ''slots'' ''1'' ''/dev/nst0'' ''0'') world1 []
     = (Raise AttributeError, [Shell ''mtx -f /dev/sg3 status''])
   \<and> exit_code (fst (main cfg0 (args0 ''slots'' ''1'' ''/dev/nst0'' ''0'') world1)) = 1"
  by code_simp

section \<open>Unloading a cleaning tape\<close>

text \<open>
  C9. An unload with the is-cleaning flag set sends the offline command when that is
  configured, runs the unload command and returns its exit code, printing a line when it
  failed. Nothing else happens: the drive is not checked, so no \<^verbatim>\<open>lsscsi\<close> or
  \<^verbatim>\<open>tapeinfo\<close> query and no load or unload of a cleaning tape can follow from it,
  whatever \<^verbatim>\<open>chk_drive\<close> and \<^verbatim>\<open>auto_clean\<close> say.
\<close>

theorem cleaning_unload_skips_check:
  "do_unload c g w all_slots volume slt dev idx vol True tr =
     then_do (send_offline c w (case dev of None \<Rightarrow> drive_device g | Some x \<Rightarrow> x) tr)
       (\<lambda>_ tr1.
          let cmd = unload_cmd c g (case slt of None \<Rightarrow> slot g | Some x \<Rightarrow> x)
                                   (case idx of None \<Rightarrow> drive_index g | Some x \<Rightarrow> x);
              result = w tr1 cmd
          in (Ret (returncode result),
              tr1 @ [Shell cmd] @
                (if returncode result \<noteq> 0
                 then [Print (fail_txt_unload (case slt of None \<Rightarrow> slot g | Some x \<Rightarrow> x)
                            (case dev of None \<Rightarrow> drive_device g | Some x \<Rightarrow> x)
                            (case idx of None \<Rightarrow> drive_index g | Some x \<Rightarrow> x)
                            (case vol of None \<Rightarrow> volume | Some x \<Rightarrow> x)
                          @ '' Err: '' @ stderr result)]
                 else [])))"
  by (simp add: do_unload.simps Let_def get_shell_result_def then_do_def
        split: prod.splits res.splits)

theorem cleaning_unload_skips_check_witness:
  "do_unload cfg0 (args0 ''unload'' ''1'' ''/dev/nst0'' ''0'')
     (world_of [(''mtx -f /dev/sg3 unload 3 0'', ok []),
                (''lsscsi -ug'', ok ''[3:0:0:0] tape st0 /dev/sg4''),
                (''tapeinfo -f /dev/sg4'', ok ''TapeAlert[20]: Clean Now'')])
     ''S:3:E'' [] (Some ''3'') (Some []) (Some ''0'') (Some ''CLN001'') True []
   = (Ret 0, [Shell ''mtx -f /dev/sg3 unload 3 0''])"
  unfolding cleaning_unload_skips_check
  by (simp add: send_offline_def unload_cmd_def cfg0_def args0_def world_of_def ok_def)

section \<open>The used-only listing of a packet loader\<close>

lemma foldl_list_step_vxa:
  "vxa_packetloader c \<Longrightarrow> foldl (list_step c l) acc xs = acc"
  by (induction xs arbitrary: acc) (simp_all add: list_step_def Let_def)

text \<open>
  C10. With \<^verbatim>\<open>vxa_packetloader\<close> set, \<^verbatim>\<open>do_list\<close> returns the empty string for every
  status dump the tool delivers: no round of the loop adds to the output.
\<close>

theorem do_list_vxa_empty:
  "vxa_packetloader c \<Longrightarrow> get_status c g w tr = (Ret out, tr1) \<Longrightarrow>
   do_list c g w tr = (Ret [], tr1)"
  by (simp add: do_list_def Let_def foldl_list_step_vxa)

theorem do_list_vxa_empty_witness:
  "vxa_packetloader (cfg0\<lparr>vxa_packetloader := True\<rparr>)
   \<and> get_status (cfg0\<lparr>vxa_packetloader := True\<rparr>) (args0 ''list'' ''1'' ''/dev/nst0'' ''0'')
       world1 [] = (Ret status1, [Shell ''mtx -f /dev/sg3 status''])
   \<and> do_list (cfg0\<lparr>vxa_packetloader := True\<rparr>) (args0 ''list'' ''1'' ''/dev/nst0'' ''0'')
       world1 [] = (Ret [], [Shell ''mtx -f /dev/sg3 status''])"
proof -
  have v: "vxa_packetloader (cfg0\<lparr>vxa_packetloader := True\<rparr>)"
    by simp
  have s: "get_status (cfg0\<lparr>vxa_packetloader := True\<rparr>)
             (args0 ''list'' ''1'' ''/dev/nst0'' ''0'') world1 []
           = (Ret status1, [Shell ''mtx -f /dev/sg3 status''])"
    by (simp add: get_status_def get_shell_result_def status_cmd_def cfg0_def args0_def
          world1_def world_of_def ok_def)
  from do_list_vxa_empty [OF v s] v s show ?thesis by simp
qed

section \<open>The volume of a load\<close>

text \<open>
  C3. A load of slot 7 into drive 0 while drive 0 holds VOLA from slot 5. Slot 7 is not
  among the full storage elements, and the second search asks for
  \<^verbatim>\<open>D:0:F:\<close>, any digits, \<^verbatim>\<open>:\<close> only: it takes the volume of drive 0 whatever slot it
  came from, and the load is reported with the label VOLA.
\<close>

theorem load_volume_of_other_slot:
  "do_getvolname cfg0 (args0 ''load'' ''7'' ''/dev/nst0'' ''0'') world2 []
     = (Ret (VStr ''VOLA'', ''D:0:F:5:VOLA'' @ [NL] @ ''S:5:E'' @ [NL] @ ''S:7:E''),
        [Shell ''mtx -f /dev/sg3 status''])"
  by code_simp

section \<open>Waiting for the drive\<close>

lemma polls_0 [simp]: "polls c g 0 = []"
  by (simp add: polls_def)

lemma polls_Suc: "polls c g (Suc k) = [Shell (wait_cmd c g), Sleep 1] @ polls c g k"
  by (simp add: polls_def)

lemma ready_at_Suc:
  "ready_at c g w tr (Suc k) = ready_at c g w (tr @ [Shell (wait_cmd c g), Sleep 1]) k"
  by (simp add: ready_at_def polls_Suc)

lemma wait_loop_never:
  "n = nat (load_wait c + 1 - s) \<Longrightarrow> (\<forall>j<n. \<not> ready_at c g w tr j) \<Longrightarrow>
   wait_loop c g w s tr = (s + int n, tr @ polls c g n)"
proof (induction n arbitrary: s tr)
  case 0
  then show ?case by (simp add: wait_loop.simps)
next
  case (Suc n)
  from Suc.prems have le: "s \<le> load_wait c" and n: "n = nat (load_wait c + 1 - (s + 1))"
    by linarith+
  from Suc.prems have first: "\<not> ready_at c g w tr 0" by blast
  from Suc.prems have later: "\<forall>j<n. \<not> ready_at c g w (tr @ [Shell (wait_cmd c g), Sleep 1]) j"
    by (simp add: ready_at_Suc [symmetric])
  have "wait_loop c g w s tr = wait_loop c g w (s + 1) (tr @ [Shell (wait_cmd c g), Sleep 1])"
    using le first
    by (subst wait_loop.simps) (simp add: get_shell_result_def ready_at_def)
  also have "\<dots> = (s + 1 + int n, (tr @ [Shell (wait_cmd c g), Sleep 1]) @ polls c g n)"
    using Suc.IH [OF n later] .
  finally show ?case by (simp add: polls_Suc)
qed

lemma wait_loop_first:
  "k < nat (load_wait c + 1 - s) \<Longrightarrow> ready_at c g w tr k \<Longrightarrow>
   (\<forall>j<k. \<not> ready_at c g w tr j) \<Longrightarrow>
   wait_loop c g w s tr = (s + int k, tr @ polls c g k @ [Shell (wait_cmd c g)])"
proof (induction k arbitrary: s tr)
  case 0
  then have "s \<le> load_wait c" by linarith
  with 0 show ?case
    by (subst wait_loop.simps) (simp add: get_shell_result_def ready_at_def)
next
  case (Suc k)
  from Suc.prems have le: "s \<le> load_wait c" and k: "k < nat (load_wait c + 1 - (s + 1))"
    by linarith+
  from Suc.prems have first: "\<not> ready_at c g w tr 0" by blast
  from Suc.prems have rdy: "ready_at c g w (tr @ [Shell (wait_cmd c g), Sleep 1]) k"
    by (simp add: ready_at_Suc)
  from Suc.prems have later: "\<forall>j<k. \<not> ready_at c g w (tr @ [Shell (wait_cmd c g), Sleep 1]) j"
    by (simp add: ready_at_Suc [symmetric])
  have "wait_loop c g w s tr = wait_loop c g w (s + 1) (tr @ [Shell (wait_cmd c g), Sleep 1])"
    using le first
    by (subst wait_loop.simps) (simp add: get_shell_result_def ready_at_def)
  also have "\<dots> = (s + 1 + int k,
      (tr @ [Shell (wait_cmd c g), Sleep 1]) @ polls c g k @ [Shell (wait_cmd c g)])"
    using Suc.IH [OF k rdy later] .
  finally show ?case by (simp add: polls_Suc)
qed

text \<open>
  A wait is a number of seconds. For a configured number below -1 the window
  \<^verbatim>\<open>load_wait + 1\<close> is negative: the loop is not entered and no status is queried.
\<close>

lemma wait_for_drive_below_window:
  "load_wait c < - 1 \<Longrightarrow> do_wait_for_drive c g w tr = (Ret 0, tr)"
  by (simp add: do_wait_for_drive_def wait_loop.simps)

text \<open>
  C6. For every wait of \<^verbatim>\<open>load_wait\<close> seconds (every number that is not negative; the
  proof also covers -1) and every sequence of status outputs, the poller queries the
  status at most \<^verbatim>\<open>load_wait + 1\<close> times, one second apart. If none of these queries
  shows the ready pattern it returns 1 after exactly \<^verbatim>\<open>load_wait + 1\<close> queries; if query
  \<open>k\<close> (counted from 0) is the first that shows it, it returns 0 right after that query,
  the \<open>k + 1\<close>st. One of the two cases always holds, so 1 is returned exactly when no
  query within the window showed the pattern.
\<close>

theorem wait_for_drive_window:
  assumes "- 1 \<le> load_wait c"
  shows "((\<forall>j < nat (load_wait c + 1). \<not> ready_at c g w tr j) \<longrightarrow>
            do_wait_for_drive c g w tr = (Ret 1, tr @ polls c g (nat (load_wait c + 1))))
       \<and> (\<forall>k < nat (load_wait c + 1).
            ready_at c g w tr k \<and> (\<forall>j<k. \<not> ready_at c g w tr j) \<longrightarrow>
            do_wait_for_drive c g w tr = (Ret 0, tr @ polls c g k @ [Shell (wait_cmd c g)]))"
proof (intro conjI impI allI)
  assume "\<forall>j < nat (load_wait c + 1). \<not> ready_at c g w tr j"
  then have "wait_loop c g w 0 tr
               = (0 + int (nat (load_wait c + 1)), tr @ polls c g (nat (load_wait c + 1)))"
    by (intro wait_loop_never) simp_all
  with assms show "do_wait_for_drive c g w tr = (Ret 1, tr @ polls c g (nat (load_wait c + 1)))"
    by (simp add: do_wait_for_drive_def)
next
  fix k
  assume k: "k < nat (load_wait c + 1)"
     and r: "ready_at c g w tr k \<and> (\<forall>j<k. \<not> ready_at c g w tr j)"
  then have "wait_loop c g w 0 tr = (0 + int k, tr @ polls c g k @ [Shell (wait_cmd c g)])"
    by (intro wait_loop_first) simp_all
  with k show "do_wait_for_drive c g w tr = (Ret 0, tr @ polls c g k @ [Shell (wait_cmd c g)])"
    by (simp add: do_wait_for_drive_def)
qed

theorem wait_for_drive_window_witness:
  "- 1 \<le> load_wait cfg0
   \<and> \<not> ready_at cfg0 (args0 ''load'' ''1'' ''/dev/nst0'' ''0'') world_slow [] 0
   \<and> \<not> ready_at cfg0 (args0 ''load'' ''1'' ''/dev/nst0'' ''0'') world_slow [] 1
   \<and> ready_at cfg0 (args0 ''load'' ''1'' ''/dev/nst0'' ''0'') world_slow [] 2
   \<and> do_wait_for_drive cfg0 (args0 ''load'' ''1'' ''/dev/nst0'' ''0'') world_slow []
       = (Ret 0, [Shell ''mt -f /dev/nst0 status'', Sleep 1,
                  Shell ''mt -f /dev/nst0 status'', Sleep 1,
                  Shell ''mt -f /dev/nst0 status''])
   \<and> do_wait_for_drive cfg0 (args0 ''load'' ''1'' ''/dev/nst0'' ''0'') world_stuck []
       = (Ret 1, [Shell ''mt -f /dev/nst0 status'', Sleep 1,
                  Shell ''mt -f /dev/nst0 status'', Sleep 1,
                  Shell ''mt -f /dev/nst0 status'', Sleep 1])"
proof -
  let ?g = "args0 ''load'' ''1'' ''/dev/nst0'' ''0''"
  have lw: "- 1 \<le> load_wait cfg0" by (simp add: cfg0_def)
  have n: "nat (load_wait cfg0 + 1) = 3" by (simp add: cfg0_def)
  have r0: "\<not> ready_at cfg0 ?g world_slow [] 0" by code_simp
  have r1: "\<not> ready_at cfg0 ?g world_slow [] 1" by code_simp
  have r2: "ready_at cfg0 ?g world_slow [] 2" by code_simp
  have s: "\<And>j. \<not> ready_at cfg0 ?g world_stuck [] j"
    by (simp add: ready_at_def world_stuck_def ok_def args0_def re_search_def)
  have lt: "\<And>j::nat. j < 2 \<longleftrightarrow> j = 0 \<or> j = 1" by auto
  have p2: "polls cfg0 ?g 2 = [Shell ''mt -f /dev/nst0 status'', Sleep 1,
                  Shell ''mt -f /dev/nst0 status'', Sleep 1]" by code_simp
  have p3: "polls cfg0 ?g 3 = [Shell ''mt -f /dev/nst0 status'', Sleep 1,
                  Shell ''mt -f /dev/nst0 status'', Sleep 1,
                  Shell ''mt -f /dev/nst0 status'', Sleep 1]" by code_simp
  have wc: "wait_cmd cfg0 ?g = ''mt -f /dev/nst0 status''" by code_simp
  from wait_for_drive_window [OF lw, of ?g world_slow "[]"] r0 r1 r2
  have a: "do_wait_for_drive cfg0 ?g world_slow [] = (Ret 0, [] @ polls cfg0 ?g 2 @ [Shell (wait_cmd cfg0 ?g)])"
    by (simp add: n lt)
  from wait_for_drive_window [OF lw, of ?g world_stuck "[]"] s
  have b: "do_wait_for_drive cfg0 ?g world_stuck [] = (Ret 1, [] @ polls cfg0 ?g (nat (load_wait cfg0 + 1)))"
    by blast
  from lw r0 r1 r2 a b show ?thesis by (simp add: n p2 p3 wc)
qed

section \<open>Cleaning\<close>

text \<open>
  The orchestrator on its way: a library with one cleaning tape in a slot or in the first
  drive listed is handled as the comments of \<^verbatim>\<open>do_clean\<close> say. Here the cleaning tape
  is in drive 0 while drive 1 is unloaded: it is unloaded to slot 3 first, loaded into
  drive 1, and unloaded again.
\<close>

lemma cleaning_tape_in_first_drive:
  "main cfg0 (args0 ''unload'' ''2'' ''/dev/nst1'' ''1'') world4
     = (Exit 0,
        [Shell ''mtx -f /dev/sg3 status'', Shell ''mtx -f /dev/sg3 unload 2 1'',
         Shell ''lsscsi -ug'', Shell ''tapeinfo -f /dev/sg5'',
         Shell ''mtx -f /dev/sg3 unload 3 0'', Shell ''mtx -f /dev/sg3 load 3 1'',
         Sleep 0, Shell ''mtx -f /dev/sg3 unload 3 1''])"
  by code_simp

text \<open>
  C8. The cleaning tape is in drive 1 while drive 0 is unloaded and asks for cleaning.
  The search \<^verbatim>\<open>'^D:(\d+):F:' + cln_slot\<close> runs without the multi-line flag, so \<^verbatim>\<open>^\<close>
  stands for the start of the whole listing: only the drive on its first line can be
  found. The tape in drive 1 is not unloaded; the load from its empty home slot is
  issued at once and fails, and the unload ends with the load's exit code.
\<close>

theorem cleaning_tape_in_second_drive:
  "main cfg0 (args0 ''unload'' ''2'' ''/dev/nst0'' ''0'') world3
     = (Exit 1,
        [Shell ''mtx -f /dev/sg3 status'', Shell ''mtx -f /dev/sg3 unload 2 0'',
         Shell ''lsscsi -ug'', Shell ''tapeinfo -f /dev/sg4'',
         Shell ''mtx -f /dev/sg3 load 3 0'',
         Print (''Failed to load drive device /dev/nst0 (drive index: 0) ''
                @ ''with volume (CLN001) from slot 3. Err: source Element Address 3 is Empty'')])"
  by code_simp

text \<open>
  C7. Where the orchestrator returns 1, the unload reports success and nothing is run
  for cleaning: with automatic cleaning and no cleaning tape in the listing, and where
  \<^verbatim>\<open>do_get_sg_node\<close> returns 1.
\<close>

lemma unload_no_cleaning_tape:
  assumes "chk_drive c" and "auto_clean c" and "chk_for_cln_tapes c all_slots = []"
      and "send_offline c w (drive_device g) tr = (Ret (), tr1)"
      and "returncode (w tr1 (unload_cmd c g (slot g) (drive_index g))) = 0"
  shows "do_unload c g w all_slots volume None None None None False tr
           = (Ret 0, tr1 @ [Shell (unload_cmd c g (slot g) (drive_index g))])"
  using assms
  by (auto simp: do_unload.simps do_checkdrive.simps get_shell_result_def Let_def)

lemma unload_no_sg_node:
  assumes "chk_drive c"
      and "send_offline c w (drive_device g) tr = (Ret (), tr1)"
      and "returncode (w tr1 (unload_cmd c g (slot g) (drive_index g))) = 0"
      and "\<not> (auto_clean c \<and> chk_for_cln_tapes c all_slots = [])"
      and "do_get_sg_node c g w (tr1 @ [Shell (unload_cmd c g (slot g) (drive_index g))])
             = (Ret (SgInt 1), tr2)"
  shows "do_unload c g w all_slots volume None None None None False tr = (Ret 0, tr2)"
  using assms
  by (auto simp: do_unload.simps do_checkdrive.simps get_shell_result_def Let_def)

text \<open>
  But \<^verbatim>\<open>do_get_sg_node\<close> does not return 1 for every drive it cannot resolve. For a
  device path that is none of \<^verbatim>\<open>/dev/st*\<close>, \<^verbatim>\<open>/dev/nst*\<close>, \<^verbatim>\<open>*/by-id*\<close> and
  \<^verbatim>\<open>*/by-path*\<close> the variable \<^verbatim>\<open>st\<close> is never assigned, and building the pattern
  after the \<^verbatim>\<open>lsscsi\<close> call is an UnboundLocalError: the unload, already done, ends
  with a traceback and exit status 1.
\<close>

theorem unload_unknown_device_path:
  "main cfg0 (args0 ''unload'' ''2'' ''/dev/sa0'' ''0'') world3
     = (Raise UnboundLocalError,
        [Shell ''mtx -f /dev/sg3 status'', Shell ''mtx -f /dev/sg3 unload 2 0'',
         Shell ''lsscsi -ug''])
   \<and> exit_code (fst (main cfg0 (args0 ''unload'' ''2'' ''/dev/sa0'' ''0'') world3)) = 1"
  by code_simp

section \<open>The full listing of a well-formed status dump\<close>

subsection \<open>Patterns that stay within a line\<close>

lemma nlfree_Cons: "nlfree (i # p) = (item_nlfree i \<and> nlfree p)"
  by (simp add: nlfree_def)

lemma first_some_map: "first_some f (map g xs) = first_some (\<lambda>x. f (g x)) xs"
  by (induction xs) (auto split: option.splits)

lemma first_some_map_option:
  "(\<And>x. f x = map_option h (f' x)) \<Longrightarrow> first_some f xs = map_option h (first_some f' xs)"
  by (induction xs) (auto split: option.splits)

lemma splits_ext:
  "\<not> in_cset c NL \<Longrightarrow>
   splits c acc (l @ NL # t) = map (\<lambda>(u, r). (u, r @ NL # t)) (splits c acc l)"
  by (induction l arbitrary: acc) auto

lemma butlast_map: "butlast (map f xs) = map f (butlast xs)"
  by (induction xs) auto

lemma m_nl:
  "nlfree p \<Longrightarrow>
   m p b (opens, l @ NL # t, caps) = map_option (with_tail (NL # t)) (m p b (opens, l, caps))"
proof (induction p arbitrary: opens l caps)
  case Nil
  then show ?case by (simp add: with_tail_def)
next
  case (Cons i p)
  then have nf: "nlfree p" and inf: "item_nlfree i" by (simp_all add: nlfree_Cons)
  note IH = Cons.IH [OF nf]
  have step: "\<And>x. m p b (consume opens caps (case x of (u, r) \<Rightarrow> (u, r @ NL # t)))
             = map_option (with_tail (NL # t)) (m p b (consume opens caps x))"
    using IH by (auto split: prod.splits)
  show ?case
  proof (cases i)
    case (One c)
    then show ?thesis using inf IH by (cases l) (auto simp: with_tail_def)
  next
    case (Star c)
    then show ?thesis using inf
      by (simp add: splits_ext first_some_map first_some_map_option [OF step])
  next
    case (Plus c)
    then show ?thesis using inf
      by (simp add: splits_ext butlast_map first_some_map first_some_map_option [OF step])
  next
    case (PlusLazy c)
    then show ?thesis using inf
      by (simp add: splits_ext butlast_map rev_map first_some_map
            first_some_map_option [OF step])
  next
    case GOpen
    then show ?thesis using IH by simp
  next
    case GClose
    then show ?thesis using IH by (auto split: list.splits)
  next
    case Bol
    then show ?thesis using inf by simp
  qed
qed

lemma m_bos: "nlfree p \<Longrightarrow> m p b st = m p b' st"
proof (induction p arbitrary: st)
  case Nil
  then show ?case by simp
next
  case (Cons i p)
  then have nf: "nlfree p" and inf: "item_nlfree i" by (simp_all add: nlfree_Cons)
  have IH: "m p b = m p b'" using Cons.IH [OF nf] by (intro ext)
  obtain opens rest caps where st: "st = (opens, rest, caps)" by (cases st) auto
  show ?case using inf unfolding st
    by (cases i) (auto simp: IH split: list.splits)
qed

text \<open>What a match has read is a prefix of the input.\<close>

lemma splits_parts:
  "(u, r) \<in> set (splits c acc s) \<Longrightarrow> \<exists>v. u = acc @ v \<and> s = v @ r"
proof (induction s arbitrary: acc)
  case Nil
  then show ?case by simp
next
  case (Cons x xs)
  show ?case
  proof (cases "(u, r) = (acc, x # xs)")
    case True
    then show ?thesis by simp
  next
    case False
    with Cons.prems have "in_cset c x" and "(u, r) \<in> set (splits c (acc @ [x]) xs)"
      by (auto split: if_splits)
    from Cons.IH [OF this(2)] show ?thesis by auto
  qed
qed

lemma first_some_SomeD: "first_some f xs = Some y \<Longrightarrow> \<exists>x \<in> set xs. f x = Some y"
  by (induction xs) (auto split: option.splits)

lemma m_reads:
  "m p b (opens, s, caps) = Some (opens', s', caps') \<Longrightarrow> opens \<noteq> [] \<Longrightarrow>
   opens' \<noteq> [] \<and> (\<exists>u. s = u @ s' \<and> last opens' = last opens @ u)"
proof (induction p arbitrary: opens s caps)
  case Nil
  then show ?case by simp
next
  case (Cons i p)
  show ?case
  proof (cases i)
    case (One c)
    with Cons.prems obtain x xs where s: "s = x # xs" and
      mm: "m p b (map (\<lambda>g. g @ [x]) opens, xs, caps) = Some (opens', s', caps')"
      by (cases s) (auto split: if_splits)
    from Cons.IH [OF mm] Cons.prems(2) show ?thesis
      by (auto simp: s last_map)
  next
    case (Star c)
    with Cons.prems obtain u r where ur: "(u, r) \<in> set (splits c [] s)"
      and mm: "m p b (map (\<lambda>g. g @ u) opens, r, caps) = Some (opens', s', caps')"
      by (auto dest!: first_some_SomeD)
    from splits_parts [OF ur] have s: "s = u @ r" by simp
    from Cons.IH [OF mm] Cons.prems(2) show ?thesis
      by (auto simp: s last_map)
  next
    case (Plus c)
    with Cons.prems obtain u r where ur: "(u, r) \<in> set (splits c [] s)"
      and mm: "m p b (map (\<lambda>g. g @ u) opens, r, caps) = Some (opens', s', caps')"
      by (auto dest!: first_some_SomeD in_set_butlastD)
    from splits_parts [OF ur] have s: "s = u @ r" by simp
    from Cons.IH [OF mm] Cons.prems(2) show ?thesis
      by (auto simp: s last_map)
  next
    case (PlusLazy c)
    with Cons.prems obtain u r where ur: "(u, r) \<in> set (splits c [] s)"
      and mm: "m p b (map (\<lambda>g. g @ u) opens, r, caps) = Some (opens', s', caps')"
      by (auto dest!: first_some_SomeD in_set_butlastD)
    from splits_parts [OF ur] have s: "s = u @ r" by simp
    from Cons.IH [OF mm] Cons.prems(2) show ?thesis
      by (auto simp: s last_map)
  next
    case GOpen
    with Cons.prems have mm: "m p b ([] # opens, s, caps) = Some (opens', s', caps')" by simp
    from Cons.IH [OF mm] Cons.prems(2) show ?thesis by auto
  next
    case GClose
    with Cons.prems obtain g g' gs where o: "opens = g # g' # gs"
      and mm: "m p b (g' # gs, s, caps @ [g]) = Some (opens', s', caps')"
      by (auto split: list.splits)
    from Cons.IH [OF mm] show ?thesis by (auto simp: o)
  next
    case Bol
    with Cons.prems have mm: "m p b (opens, s, caps) = Some (opens', s', caps')"
      by (auto split: if_splits)
    from Cons.IH [OF mm] Cons.prems(2) show ?thesis by auto
  qed
qed

lemma m_group0_length:
  "m p b ([[]], s, []) = Some r \<Longrightarrow> length (group0 r) \<le> length s"
proof -
  assume a: "m p b ([[]], s, []) = Some r"
  obtain o' s' c' where r: "r = (o', s', c')" by (cases r) auto
  from m_reads [OF a [unfolded r]] show ?thesis by (auto simp: r group0_def)
qed

lemma group0_with_tail [simp]: "group0 (with_tail t r) = group0 r"
  by (cases r) (simp add: group0_def with_tail_def)

text \<open>A pattern that reads no newline finds in a text what it finds in its lines.\<close>

lemma findall_aux_line:
  "nlfree p \<Longrightarrow> k \<le> length l \<Longrightarrow>
   map group0 (findall_aux p b k (l @ NL # t))
     = map group0 (findall_aux p b k l) @ map group0 (findall_aux p False 0 t)"
proof (induction l arbitrary: b k)
  case Nil
  then show ?case
    using m_nl [of p b "[[]]" "[]" t "[]"] m_group0_length [of p b "[]"]
    by (auto split: option.splits)
next
  case (Cons x xs)
  show ?case
  proof (cases "0 < k")
    case True
    with Cons show ?thesis by simp
  next
    case False
    show ?thesis
    proof (cases "m p b ([[]], x # xs, [])")
      case None
      with False Cons m_nl [of p b "[[]]" "x # xs" t "[]"] show ?thesis by simp
    next
      case (Some r)
      from m_group0_length [OF Some] have "length (group0 r) - 1 \<le> length xs" by simp
      with Some False Cons m_nl [of p b "[[]]" "x # xs" t "[]"] show ?thesis by simp
    qed
  qed
qed

lemma findall_aux_bos: "nlfree p \<Longrightarrow> findall_aux p b k s = findall_aux p False k s"
  by (cases b; cases s) (simp_all add: m_bos [of p True _ False])

subsection \<open>Where a pattern cannot match\<close>

text \<open>A character the pattern must read has to occur in the input.\<close>

lemma splits_rest_subset: "(u, r) \<in> set (splits c acc s) \<Longrightarrow> set r \<subseteq> set s"
  using splits_parts [of u r c acc s] by auto

lemma first_some_None: "(\<And>x. x \<in> set xs \<Longrightarrow> f x = None) \<Longrightarrow> first_some f xs = None"
  by (induction xs) auto

lemma m_needs_char:
  "One (Chr k) \<in> set p \<Longrightarrow> k \<notin> set s \<Longrightarrow> m p b (opens, s, caps) = None"
proof (induction p arbitrary: opens s caps)
  case Nil
  then show ?case by simp
next
  case (Cons i p)
  show ?case
  proof (cases "i = One (Chr k)")
    case True
    with Cons.prems show ?thesis by (cases s) auto
  next
    case False
    with Cons.prems have mem: "One (Chr k) \<in> set p" by simp
    note IH = Cons.IH [OF mem]
    have cand: "\<And>c x. x \<in> set (splits c [] s) \<Longrightarrow> m p b (consume opens caps x) = None"
    proof -
      fix c x assume x: "x \<in> set (splits c [] s)"
      obtain u r where ur: "x = (u, r)" by (cases x) auto
      from x ur splits_rest_subset [of u r c "[]" s] Cons.prems(2) have "k \<notin> set r" by auto
      from IH [OF this] show "m p b (consume opens caps x) = None" by (simp add: ur)
    qed
    show ?thesis
    proof (cases i)
      case (One c)
      with IH Cons.prems(2) show ?thesis by (cases s) auto
    next
      case (Star c)
      then show ?thesis using cand by (auto intro!: first_some_None)
    next
      case (Plus c)
      have "\<And>x. x \<in> set (butlast (splits c [] s)) \<Longrightarrow> m p b (consume opens caps x) = None"
        using cand in_set_butlastD by metis
      then have "first_some (\<lambda>x. m p b (consume opens caps x)) (butlast (splits c [] s)) = None"
        by (rule first_some_None)
      with Plus show ?thesis by (simp add: first_some_map)
    next
      case (PlusLazy c)
      have "\<And>x. x \<in> set (rev (butlast (splits c [] s))) \<Longrightarrow> m p b (consume opens caps x) = None"
        using cand in_set_butlastD by (metis set_rev)
      then have "first_some (\<lambda>x. m p b (consume opens caps x)) (rev (butlast (splits c [] s))) = None"
        by (rule first_some_None)
      with PlusLazy show ?thesis by (simp add: first_some_map)
    next
      case GOpen
      with IH Cons.prems(2) show ?thesis by simp
    next
      case GClose
      with IH Cons.prems(2) show ?thesis by (auto split: list.splits)
    next
      case Bol
      with IH Cons.prems(2) show ?thesis by (cases b) simp_all
    qed
  qed
qed

lemma search_needs_char:
  "One (Chr k) \<in> set p \<Longrightarrow> k \<notin> set s \<Longrightarrow> search_aux p b s = None"
  by (induction s arbitrary: b) (simp_all add: m_needs_char)

text \<open>Where the search finds nothing, nothing is listed and nothing is rewritten.\<close>

lemma search_aux_bos: "nlfree p \<Longrightarrow> search_aux p b s = search_aux p False s"
  by (cases b; cases s) (simp_all add: m_bos [of p True _ False])

lemma findall_none:
  "nlfree p \<Longrightarrow> search_aux p False s = None \<Longrightarrow> findall_aux p b 0 s = []"
proof (induction s arbitrary: b)
  case Nil
  then show ?case using m_bos [of p b _ False] by simp
next
  case (Cons x xs)
  then show ?case using m_bos [of p b _ False] by (simp split: option.splits)
qed

lemma sub_none:
  "nlfree p \<Longrightarrow> search_aux p False s = None \<Longrightarrow> sub_aux p t b 0 s = s"
proof (induction s arbitrary: b)
  case Nil
  then show ?case using m_bos [of p b _ False] by simp
next
  case (Cons x xs)
  then show ?case using m_bos [of p b _ False] by (simp split: option.splits)
qed

text \<open>A match of the whole subject.\<close>

lemma findall_skip: "findall_aux (One c # p) b (length s) s = []"
  by (induction s arbitrary: b) simp_all

lemma sub_skip: "sub_aux (One c # p) t b (length s) s = []"
  by (induction s arbitrary: b) simp_all

lemma findall_whole:
  "m (One c # p) True ([[]], s, []) = Some ([s], [], caps) \<Longrightarrow>
   map group0 (re_findall (One c # p) s) = [s]"
  by (cases s) (simp_all add: re_findall_def group0_def findall_skip)

lemma sub_whole:
  "m (One c # p) True ([[]], s, []) = Some ([s], [], caps) \<Longrightarrow>
   re_sub (One c # p) t s = expand t ([s], [], caps)"
  by (cases s) (simp_all add: re_sub_def group0_def sub_skip)

text \<open>Runs: a repetition followed by a character that is not of its class.\<close>

lemma splits_run:
  "list_all (in_cset c) n \<Longrightarrow> r = [] \<or> \<not> in_cset c (hd r) \<Longrightarrow>
   splits c acc (n @ r) = map (\<lambda>k. (acc @ take k n, drop k n @ r)) (rev [0..<Suc (length n)])"
proof (induction n arbitrary: acc)
  case Nil
  then show ?case by (cases r) auto
next
  case (Cons x xs)
  have "map (\<lambda>k. ((acc @ [x]) @ take k xs, drop k xs @ r)) (rev [0..<Suc (length xs)])
      = map (\<lambda>k. (acc @ take k (x # xs), drop k (x # xs) @ r)) (rev [Suc 0..<Suc (Suc (length xs))])"
    by (simp only: map_Suc_upt [symmetric] rev_map [symmetric] map_map comp_def) simp
  with Cons show ?case
    by (simp add: upt_rec [of 0] del: upt_Suc)
qed

subsection \<open>Repetitions on runs of characters\<close>

lemma rev_upt_Suc: "rev [0..<Suc n] = n # rev [0..<n]"
  by simp

lemma m_plus_run:
  assumes "list_all (in_cset c) n" and "n \<noteq> []" and "r = [] \<or> \<not> in_cset c (hd r)"
      and fail: "\<And>k. k < length n \<Longrightarrow>
                   m p b (map (\<lambda>g. g @ take k n) opens, drop k n @ r, caps) = None"
  shows "m (Plus c # p) b (opens, n @ r, caps) = m p b (map (\<lambda>g. g @ n) opens, r, caps)"
proof -
  let ?f = "\<lambda>k. (take k n, drop k n @ r)"
  let ?h = "\<lambda>x. m p b (consume opens caps x)"
  have sp: "splits c [] (n @ r) = map ?f (rev [0..<Suc (length n)])"
    using splits_run [OF assms(1,3), of "[]"] by simp
  have "butlast (splits c [] (n @ r)) = map ?f (butlast (rev [0..<Suc (length n)]))"
    by (simp only: sp butlast_map)
  also have "butlast (rev [0..<Suc (length n)]) = rev [Suc 0..<Suc (length n)]"
    by (simp add: butlast_rev upt_conv_Cons del: upt_Suc)
  also have "rev [Suc 0..<Suc (length n)] = length n # rev [Suc 0..<length n]"
    using assms(2) by (cases n) simp_all
  finally have bl: "butlast (splits c [] (n @ r))
      = ?f (length n) # map ?f (rev [Suc 0..<length n])" by simp
  have others: "first_some (\<lambda>x. m p b (map (\<lambda>g. g @ take x n) opens, drop x n @ r, caps))
                  (rev [Suc 0..<length n]) = None"
    by (rule first_some_None) (auto simp: fail)
  show ?thesis
    by (simp add: bl first_some_map others split: option.splits)
qed

lemma m_plus_then_char:
  assumes "list_all (in_cset c) n" and "n \<noteq> []" and "r = [] \<or> \<not> in_cset c (hd r)"
      and "\<not> in_cset c d"
  shows "m (Plus c # One (Chr d) # p) b (opens, n @ r, caps)
           = m (One (Chr d) # p) b (map (\<lambda>g. g @ n) opens, r, caps)"
proof (rule m_plus_run [OF assms(1-3)])
  fix k assume k: "k < length n"
  then have "drop k n = n ! k # drop (Suc k) n" by (simp add: Cons_nth_drop_Suc)
  moreover from k assms(1) have "in_cset c (n ! k)" by (simp add: list_all_length)
  with assms(4) have "n ! k \<noteq> d" by auto
  ultimately show "m (One (Chr d) # p) b (map (\<lambda>g. g @ take k n) opens, drop k n @ r, caps) = None"
    by simp
qed

lemma m_plus_close_then_char:
  assumes "list_all (in_cset c) n" and "n \<noteq> []" and "r = [] \<or> \<not> in_cset c (hd r)"
      and "\<not> in_cset c d"
  shows "m (Plus c # GClose # One (Chr d) # p) b (opens, n @ r, caps)
           = m (GClose # One (Chr d) # p) b (map (\<lambda>g. g @ n) opens, r, caps)"
proof (rule m_plus_run [OF assms(1-3)])
  fix k assume k: "k < length n"
  then have "drop k n = n ! k # drop (Suc k) n" by (simp add: Cons_nth_drop_Suc)
  moreover from k assms(1) have "in_cset c (n ! k)" by (simp add: list_all_length)
  with assms(4) have "n ! k \<noteq> d" by auto
  ultimately show "m (GClose # One (Chr d) # p) b
                     (map (\<lambda>g. g @ take k n) opens, drop k n @ r, caps) = None"
    by (simp split: list.splits)
qed

lemma m_star_to_end_word:
  assumes "list_all (in_cset c) u" and "u \<noteq> []" and "in_cset c' (last u)"
  shows "m [Star c, One c'] b (opens, u, caps) = Some (map (\<lambda>g. g @ u) opens, [], caps)"
proof -
  let ?f = "\<lambda>k. (take k u, drop k u @ [])"
  from assms(2) obtain u' w where u: "u = u' @ [w]" by (cases u rule: rev_cases) auto
  have sp: "splits c [] u = map ?f (rev [0..<Suc (length u)])"
    using splits_run [OF assms(1), of "[]" "[]"] by simp
  have "rev [0..<Suc (length u)] = length u # length u' # rev [0..<length u']"
    by (simp add: u)
  then have "splits c [] u = ?f (length u) # ?f (length u') # map ?f (rev [0..<length u'])"
    by (simp only: sp list.map)
  then show ?thesis using assms(3) by (simp add: u comp_def)
qed

lemma m_star_to_end_close:
  assumes "list_all (in_cset c) v"
  shows "m [Star c, GClose] b (g # g' # gs, v, caps)
           = Some (map (\<lambda>x. x @ v) (g' # gs), [], caps @ [g @ v])"
proof -
  let ?f = "\<lambda>k. (take k v, drop k v @ [])"
  have sp: "splits c [] v = map ?f (rev [0..<Suc (length v)])"
    using splits_run [OF assms(1), of "[]" "[]"] by simp
  have "splits c [] v = ?f (length v) # map ?f (rev [0..<length v])"
    by (simp only: sp rev_upt_Suc list.map)
  then show ?thesis by simp
qed

lemma search_skip_run:
  "list_all (\<lambda>x. \<not> in_cset c x) n \<Longrightarrow> n \<noteq> [] \<Longrightarrow>
   search_aux (One c # p) b (n @ s) = search_aux (One c # p) False s"
proof (induction n arbitrary: b)
  case Nil
  then show ?case by simp
next
  case (Cons x xs)
  then show ?case by (cases xs) auto
qed

subsection \<open>Numbers and labels\<close>

lemma number_simps [simp]:
  assumes "is_number n"
  shows "n \<noteq> []" and "list_all (in_cset Digit) n" and "list_all (in_cset AnyChar) n"
    and "CHR '' '' \<notin> set n"
proof -
  from assms show ne: "n \<noteq> []" and all: "list_all (in_cset Digit) n"
    by (simp_all add: is_number_def)
  have nl: "\<not> in_cset Digit NL" and sp: "\<not> in_cset Digit CHR '' ''" by simp_all
  from all nl have "\<forall>x \<in> set n. x \<noteq> NL" unfolding list_all_iff by blast
  then show "list_all (in_cset AnyChar) n" by (simp add: list_all_iff)
  from all sp show "CHR '' '' \<notin> set n" unfolding list_all_iff by blast
qed

lemma label_simps [simp]:
  assumes "is_label v"
  shows "v \<noteq> []" and "list_all (in_cset AnyChar) v" and "in_cset WordChar (last v)"
    and "CHR '' '' \<notin> set v"
proof -
  from assms have ne: "v \<noteq> []" and all: "list_all (in_cset WordChar) v"
    by (simp_all add: is_label_def)
  show "v \<noteq> []" by (rule ne)
  have nl: "\<not> in_cset WordChar NL" and sp: "\<not> in_cset WordChar CHR '' ''" by simp_all
  from all nl have "\<forall>x \<in> set v. x \<noteq> NL" unfolding list_all_iff by blast
  then show "list_all (in_cset AnyChar) v" by (simp add: list_all_iff)
  from all sp show "CHR '' '' \<notin> set v" unfolding list_all_iff by blast
  from ne have "last v \<in> set v" by simp
  with all show "in_cset WordChar (last v)" unfolding list_all_iff by blast
qed

lemma search_skip_number:
  "is_number n \<Longrightarrow> \<not> in_cset Digit k \<Longrightarrow>
   search_aux (One (Chr k) # p) b (n @ s) = search_aux (One (Chr k) # p) False s"
proof (rule search_skip_run)
  assume n: "is_number n" and k: "\<not> in_cset Digit k"
  then have "\<forall>x \<in> set n. in_cset Digit x" by (simp add: is_number_def list_all_iff)
  with k have "\<forall>x \<in> set n. x \<noteq> k" by blast
  then show "list_all (\<lambda>x. \<not> in_cset (Chr k) x) n" by (simp add: list_all_iff)
  from n show "n \<noteq> []" by simp
qed

lemma search_label_none:
  "is_label v \<Longrightarrow> One (Chr CHR '' '') \<in> set p \<Longrightarrow> search_aux p b v = None"
  by (rule search_needs_char [where k = "CHR '' ''"]) simp_all

lemma m_number:
  "is_number n \<Longrightarrow> r = [] \<or> \<not> in_cset Digit (hd r) \<Longrightarrow> \<not> in_cset Digit d \<Longrightarrow>
   m (Plus Digit # One (Chr d) # p) b (opens, n @ r, caps)
     = m (One (Chr d) # p) b (map (\<lambda>g. g @ n) opens, r, caps)"
  by (rule m_plus_then_char) simp_all

lemma m_number_close:
  "is_number n \<Longrightarrow> r = [] \<or> \<not> in_cset Digit (hd r) \<Longrightarrow> \<not> in_cset Digit d \<Longrightarrow>
   m (Plus Digit # GClose # One (Chr d) # p) b (opens, n @ r, caps)
     = m (GClose # One (Chr d) # p) b (map (\<lambda>g. g @ n) opens, r, caps)"
  by (rule m_plus_close_then_char) simp_all

lemma cset_tests [simp]:
  "\<not> in_cset Digit CHR '':''" "\<not> in_cset Digit CHR '' ''" "\<not> in_cset Digit CHR ''D''"
  "\<not> in_cset Digit CHR ''S''" "in_cset WordChar CHR ''y''"
  by simp_all

declare m.simps(3-5) [simp del] in_cset.simps(3-4) [simp del]

lemmas rx_listall_defs = rx_dt_line_def rx_st_line_def rx_ie_line_def rx_dt_empty_def
  rx_dt_full_def rx_st_empty_def rx_st_full_def rx_ie_empty_def rx_ie_full_def

lemmas scan_simps = m_number m_number_close m_star_to_end_word m_star_to_end_close
  search_skip_number search_label_none

subsection \<open>The patterns of the full listing on the lines of a status dump\<close>

lemma findall_skip': "m p False ([[]], [], []) = None \<Longrightarrow> findall_aux p False (length s) s = []"
  by (induction s) simp_all

lemma sub_skip': "m p False ([[]], [], []) = None \<Longrightarrow> sub_aux p t False (length s) s = []"
  by (induction s) simp_all

lemma findall_whole':
  "m p True ([[]], s, []) = Some ([s], [], caps) \<Longrightarrow> m p False ([[]], [], []) = None \<Longrightarrow>
   s \<noteq> [] \<Longrightarrow> map group0 (re_findall p s) = [s]"
  by (cases s) (simp_all add: re_findall_def group0_def findall_skip')

lemma sub_whole':
  "m p True ([[]], s, []) = Some ([s], [], caps) \<Longrightarrow> m p False ([[]], [], []) = None \<Longrightarrow>
   s \<noteq> [] \<Longrightarrow> re_sub p t s = expand t ([s], [], caps)"
  by (cases s) (simp_all add: re_sub_def group0_def sub_skip')

lemma findall_nowhere:
  "nlfree p \<Longrightarrow> search_aux p False s = None \<Longrightarrow> map group0 (re_findall p s) = []"
  by (simp add: re_findall_def findall_none)

lemma sub_nowhere:
  "nlfree p \<Longrightarrow> search_aux p False s = None \<Longrightarrow> re_sub p t s = s"
  by (simp add: re_sub_def sub_none)

lemma nlfree_listall:
  "nlfree rx_dt_line" "nlfree rx_st_line" "nlfree rx_ie_line" "nlfree rx_dt_empty"
  "nlfree rx_dt_full" "nlfree rx_st_empty" "nlfree rx_st_full" "nlfree rx_ie_empty"
  "nlfree rx_ie_full"
  by (simp_all add: nlfree_def rx_listall_defs in_cset.simps)

lemma space_listall:
  "One (Chr CHR '' '') \<in> set rx_dt_empty" "One (Chr CHR '' '') \<in> set rx_dt_full"
  "One (Chr CHR '' '') \<in> set rx_st_empty" "One (Chr CHR '' '') \<in> set rx_st_full"
  "One (Chr CHR '' '') \<in> set rx_ie_empty" "One (Chr CHR '' '') \<in> set rx_ie_full"
  by (simp_all add: rx_listall_defs)

lemma empty_listall:
  "m rx_dt_line False ([[]], [], []) = None" "m rx_st_line False ([[]], [], []) = None"
  "m rx_ie_line False ([[]], [], []) = None" "m rx_dt_empty False ([[]], [], []) = None"
  "m rx_dt_full False ([[]], [], []) = None" "m rx_st_empty False ([[]], [], []) = None"
  "m rx_st_full False ([[]], [], []) = None" "m rx_ie_empty False ([[]], [], []) = None"
  "m rx_ie_full False ([[]], [], []) = None"
  by (simp_all add: rx_listall_defs)

lemma m_dt_line_E1:
  "is_number n \<Longrightarrow>
   m rx_dt_line True ([[]], raw_line (DataTransfer n None), [])
     = Some ([raw_line (DataTransfer n None)], [], [])"
  by (simp add: rx_listall_defs scan_simps)

lemma m_dt_line_E2:
  "is_number n \<Longrightarrow> is_number s \<Longrightarrow> is_label v \<Longrightarrow>
   m rx_dt_line True ([[]], raw_line (DataTransfer n (Some (s, v))), [])
     = Some ([raw_line (DataTransfer n (Some (s, v)))], [], [])"
  by (simp add: rx_listall_defs scan_simps)

lemma m_st_line_E3:
  "is_number n \<Longrightarrow>
   m rx_st_line True ([[]], raw_line (Storage n None), [])
     = Some ([raw_line (Storage n None)], [], [])"
  by (simp add: rx_listall_defs scan_simps)

lemma m_st_line_E4:
  "is_number n \<Longrightarrow> is_label v \<Longrightarrow>
   m rx_st_line True ([[]], raw_line (Storage n (Some v)), [])
     = Some ([raw_line (Storage n (Some v))], [], [])"
  by (simp add: rx_listall_defs scan_simps)

lemma m_ie_line_E5:
  "is_number n \<Longrightarrow>
   m rx_ie_line True ([[]], raw_line (ImportExport n None), [])
     = Some ([raw_line (ImportExport n None)], [], [])"
  by (simp add: rx_listall_defs scan_simps)

lemma m_ie_line_E6:
  "is_number n \<Longrightarrow> is_label v \<Longrightarrow>
   m rx_ie_line True ([[]], raw_line (ImportExport n (Some v)), [])
     = Some ([raw_line (ImportExport n (Some v))], [], [])"
  by (simp add: rx_listall_defs scan_simps)

lemma m_dt_empty_E1:
  "is_number n \<Longrightarrow>
   m rx_dt_empty True ([[]], raw_line (DataTransfer n None), [])
     = Some ([raw_line (DataTransfer n None)], [], [n])"
  by (simp add: rx_listall_defs scan_simps)

lemma m_dt_full_E2:
  "is_number n \<Longrightarrow> is_number s \<Longrightarrow> is_label v \<Longrightarrow>
   m rx_dt_full True ([[]], raw_line (DataTransfer n (Some (s, v))), [])
     = Some ([raw_line (DataTransfer n (Some (s, v)))], [], [n, s, v])"
  by (simp add: rx_listall_defs scan_simps)

lemma m_st_empty_E3:
  "is_number n \<Longrightarrow>
   m rx_st_empty True ([[]], raw_line (Storage n None), [])
     = Some ([raw_line (Storage n None)], [], [n])"
  by (simp add: rx_listall_defs scan_simps)

lemma m_st_full_E4:
  "is_number n \<Longrightarrow> is_label v \<Longrightarrow>
   m rx_st_full True ([[]], raw_line (Storage n (Some v)), [])
     = Some ([raw_line (Storage n (Some v))], [], [n, v])"
  by (simp add: rx_listall_defs scan_simps)

lemma m_ie_empty_E5:
  "is_number n \<Longrightarrow>
   m rx_ie_empty True ([[]], raw_line (ImportExport n None), [])
     = Some ([raw_line (ImportExport n None)], [], [n])"
  by (simp add: rx_listall_defs scan_simps)

lemma m_ie_full_E6:
  "is_number n \<Longrightarrow> is_label v \<Longrightarrow>
   m rx_ie_full True ([[]], raw_line (ImportExport n (Some v)), [])
     = Some ([raw_line (ImportExport n (Some v))], [], [n, v])"
  by (simp add: rx_listall_defs scan_simps)

lemma no_dt_line_E3:
  "is_number n \<Longrightarrow> search_aux rx_dt_line False (raw_line (Storage n None)) = None"
  by (simp add: rx_listall_defs scan_simps)

lemma no_dt_line_E4:
  "is_number n \<Longrightarrow> is_label v \<Longrightarrow> search_aux rx_dt_line False (raw_line (Storage n (Some v))) = None"
  by (simp add: rx_listall_defs scan_simps)

lemma no_dt_line_E5:
  "is_number n \<Longrightarrow> search_aux rx_dt_line False (raw_line (ImportExport n None)) = None"
  by (simp add: rx_listall_defs scan_simps)

lemma no_dt_line_E6:
  "is_number n \<Longrightarrow> is_label v \<Longrightarrow> search_aux rx_dt_line False (raw_line (ImportExport n (Some v))) = None"
  by (simp add: rx_listall_defs scan_simps)

lemma no_st_line_E1:
  "is_number n \<Longrightarrow> search_aux rx_st_line False (raw_line (DataTransfer n None)) = None"
  by (simp add: rx_listall_defs scan_simps)

lemma no_st_line_E2:
  "is_number n \<Longrightarrow> is_number s \<Longrightarrow> is_label v \<Longrightarrow> search_aux rx_st_line False (raw_line (DataTransfer n (Some (s, v)))) = None"
  by (simp add: rx_listall_defs scan_simps)

lemma no_st_line_E5:
  "is_number n \<Longrightarrow> search_aux rx_st_line False (raw_line (ImportExport n None)) = None"
  by (simp add: rx_listall_defs scan_simps)

lemma no_st_line_E6:
  "is_number n \<Longrightarrow> is_label v \<Longrightarrow> search_aux rx_st_line False (raw_line (ImportExport n (Some v))) = None"
  by (simp add: rx_listall_defs scan_simps)

lemma no_ie_line_E1:
  "is_number n \<Longrightarrow> search_aux rx_ie_line False (raw_line (DataTransfer n None)) = None"
  by (simp add: rx_listall_defs scan_simps)

lemma no_ie_line_E2:
  "is_number n \<Longrightarrow> is_number s \<Longrightarrow> is_label v \<Longrightarrow> search_aux rx_ie_line False (raw_line (DataTransfer n (Some (s, v)))) = None"
  by (simp add: rx_listall_defs scan_simps)

lemma no_ie_line_E3:
  "is_number n \<Longrightarrow> search_aux rx_ie_line False (raw_line (Storage n None)) = None"
  by (simp add: rx_listall_defs scan_simps)

lemma no_ie_line_E4:
  "is_number n \<Longrightarrow> is_label v \<Longrightarrow> search_aux rx_ie_line False (raw_line (Storage n (Some v))) = None"
  by (simp add: rx_listall_defs scan_simps)

lemma no_dt_empty_E2:
  "is_number n \<Longrightarrow> is_number s \<Longrightarrow> is_label v \<Longrightarrow> search_aux rx_dt_empty False (raw_line (DataTransfer n (Some (s, v)))) = None"
  by (simp add: rx_listall_defs scan_simps)

lemma no_dt_empty_E3:
  "is_number n \<Longrightarrow> search_aux rx_dt_empty False (raw_line (Storage n None)) = None"
  by (simp add: rx_listall_defs scan_simps)

lemma no_dt_empty_E4:
  "is_number n \<Longrightarrow> is_label v \<Longrightarrow> search_aux rx_dt_empty False (raw_line (Storage n (Some v))) = None"
  by (simp add: rx_listall_defs scan_simps)

lemma no_dt_empty_E5:
  "is_number n \<Longrightarrow> search_aux rx_dt_empty False (raw_line (ImportExport n None)) = None"
  by (simp add: rx_listall_defs scan_simps)

lemma no_dt_empty_E6:
  "is_number n \<Longrightarrow> is_label v \<Longrightarrow> search_aux rx_dt_empty False (raw_line (ImportExport n (Some v))) = None"
  by (simp add: rx_listall_defs scan_simps)

lemma no_dt_full_E3:
  "is_number n \<Longrightarrow> search_aux rx_dt_full False (raw_line (Storage n None)) = None"
  by (simp add: rx_listall_defs scan_simps)

lemma no_dt_full_E4:
  "is_number n \<Longrightarrow> is_label v \<Longrightarrow> search_aux rx_dt_full False (raw_line (Storage n (Some v))) = None"
  by (simp add: rx_listall_defs scan_simps)

lemma no_dt_full_E5:
  "is_number n \<Longrightarrow> search_aux rx_dt_full False (raw_line (ImportExport n None)) = None"
  by (simp add: rx_listall_defs scan_simps)

lemma no_dt_full_E6:
  "is_number n \<Longrightarrow> is_label v \<Longrightarrow> search_aux rx_dt_full False (raw_line (ImportExport n (Some v))) = None"
  by (simp add: rx_listall_defs scan_simps)

lemma no_st_empty_E4:
  "is_number n \<Longrightarrow> is_label v \<Longrightarrow> search_aux rx_st_empty False (raw_line (Storage n (Some v))) = None"
  by (simp add: rx_listall_defs scan_simps)

lemma no_st_empty_E5:
  "is_number n \<Longrightarrow> search_aux rx_st_empty False (raw_line (ImportExport n None)) = None"
  by (simp add: rx_listall_defs scan_simps)

lemma no_st_empty_E6:
  "is_number n \<Longrightarrow> is_label v \<Longrightarrow> search_aux rx_st_empty False (raw_line (ImportExport n (Some v))) = None"
  by (simp add: rx_listall_defs scan_simps)

lemma no_st_full_E5:
  "is_number n \<Longrightarrow> search_aux rx_st_full False (raw_line (ImportExport n None)) = None"
  by (simp add: rx_listall_defs scan_simps)

lemma no_st_full_E6:
  "is_number n \<Longrightarrow> is_label v \<Longrightarrow> search_aux rx_st_full False (raw_line (ImportExport n (Some v))) = None"
  by (simp add: rx_listall_defs scan_simps)

lemma no_ie_empty_E6:
  "is_number n \<Longrightarrow> is_label v \<Longrightarrow> search_aux rx_ie_empty False (raw_line (ImportExport n (Some v))) = None"
  by (simp add: rx_listall_defs scan_simps)

subsection \<open>The elements found in a line\<close>

lemma raw_line_ne [simp]: "raw_line e \<noteq> []"
  by (cases e rule: raw_line.cases) simp_all

lemma found_dt:
  "wf_element e \<Longrightarrow>
   map group0 (re_findall rx_dt_line (raw_line e)) = (if is_dt e then [raw_line e] else [])"
  by (cases e rule: raw_line.cases)
     (simp_all only: wf_element.simps is_dt.simps if_True if_False
        findall_whole' [OF m_dt_line_E1 empty_listall(1) raw_line_ne]
        findall_whole' [OF m_dt_line_E2 empty_listall(1) raw_line_ne]
        findall_nowhere [OF nlfree_listall(1) no_dt_line_E3]
        findall_nowhere [OF nlfree_listall(1) no_dt_line_E4]
        findall_nowhere [OF nlfree_listall(1) no_dt_line_E5]
        findall_nowhere [OF nlfree_listall(1) no_dt_line_E6])

lemma found_st:
  "wf_element e \<Longrightarrow>
   map group0 (re_findall rx_st_line (raw_line e)) = (if is_st e then [raw_line e] else [])"
  by (cases e rule: raw_line.cases)
     (simp_all only: wf_element.simps is_st.simps if_True if_False
        findall_whole' [OF m_st_line_E3 empty_listall(2) raw_line_ne]
        findall_whole' [OF m_st_line_E4 empty_listall(2) raw_line_ne]
        findall_nowhere [OF nlfree_listall(2) no_st_line_E1]
        findall_nowhere [OF nlfree_listall(2) no_st_line_E2]
        findall_nowhere [OF nlfree_listall(2) no_st_line_E5]
        findall_nowhere [OF nlfree_listall(2) no_st_line_E6])

lemma found_ie:
  "wf_element e \<Longrightarrow>
   map group0 (re_findall rx_ie_line (raw_line e)) = (if is_ie e then [raw_line e] else [])"
  by (cases e rule: raw_line.cases)
     (simp_all only: wf_element.simps is_ie.simps if_True if_False
        findall_whole' [OF m_ie_line_E5 empty_listall(3) raw_line_ne]
        findall_whole' [OF m_ie_line_E6 empty_listall(3) raw_line_ne]
        findall_nowhere [OF nlfree_listall(3) no_ie_line_E1]
        findall_nowhere [OF nlfree_listall(3) no_ie_line_E2]
        findall_nowhere [OF nlfree_listall(3) no_ie_line_E3]
        findall_nowhere [OF nlfree_listall(3) no_ie_line_E4])

subsection \<open>The rewriting of a line\<close>

lemma token_no_space: "wf_element e \<Longrightarrow> CHR '' '' \<notin> set (token e)"
  by (cases e rule: raw_line.cases) simp_all

lemma sub_token:
  "nlfree p \<Longrightarrow> One (Chr CHR '' '') \<in> set p \<Longrightarrow> wf_element e \<Longrightarrow>
   re_sub p t (token e) = token e"
  by (rule sub_nowhere, assumption, rule search_needs_char [where k = "CHR '' ''"])
     (simp_all add: token_no_space)

lemmas sub_tokens =
  sub_token [OF nlfree_listall(4) space_listall(1)] sub_token [OF nlfree_listall(5) space_listall(2)]
  sub_token [OF nlfree_listall(6) space_listall(3)] sub_token [OF nlfree_listall(7) space_listall(4)]
  sub_token [OF nlfree_listall(8) space_listall(5)] sub_token [OF nlfree_listall(9) space_listall(6)]

lemma line_E1:
  assumes "is_number n"
  shows "listall_line c (raw_line (DataTransfer n None)) = token (DataTransfer n None)"
proof -
  let ?e = "DataTransfer n None"
  note a = assms(1-1)
  have wf: "wf_element ?e" using a by simp
  have hit: "re_sub rx_dt_empty [TLit ''D:'', TGrp 1, TLit '':E''] (raw_line ?e) = token ?e"
    using sub_whole' [OF m_dt_empty_E1 [OF a] empty_listall(4) raw_line_ne, of "[TLit ''D:'', TGrp 1, TLit '':E'']"]
    by (simp add: group_def)
  note miss = TrueI
  show ?thesis
    by (cases "include_import_export c")
       (simp_all only: listall_line_def Let_def hit miss sub_tokens [OF wf] if_True if_False)
qed

lemma line_E2:
  assumes "is_number n" and "is_number s" and "is_label v"
  shows "listall_line c (raw_line (DataTransfer n (Some (s, v)))) = token (DataTransfer n (Some (s, v)))"
proof -
  let ?e = "DataTransfer n (Some (s, v))"
  note a = assms(1-3)
  have wf: "wf_element ?e" using a by simp
  have hit: "re_sub rx_dt_full [TLit ''D:'', TGrp 1, TLit '':F:'', TGrp 2, TLit '':'', TGrp 3] (raw_line ?e) = token ?e"
    using sub_whole' [OF m_dt_full_E2 [OF a] empty_listall(5) raw_line_ne, of "[TLit ''D:'', TGrp 1, TLit '':F:'', TGrp 2, TLit '':'', TGrp 3]"]
    by (simp add: group_def)
  note miss = sub_nowhere [OF nlfree_listall(4) no_dt_empty_E2 [OF a]]
  show ?thesis
    by (cases "include_import_export c")
       (simp_all only: listall_line_def Let_def hit miss sub_tokens [OF wf] if_True if_False)
qed

lemma line_E3:
  assumes "is_number n"
  shows "listall_line c (raw_line (Storage n None)) = token (Storage n None)"
proof -
  let ?e = "Storage n None"
  note a = assms(1-1)
  have wf: "wf_element ?e" using a by simp
  have hit: "re_sub rx_st_empty [TLit ''S:'', TGrp 1, TLit '':E''] (raw_line ?e) = token ?e"
    using sub_whole' [OF m_st_empty_E3 [OF a] empty_listall(6) raw_line_ne, of "[TLit ''S:'', TGrp 1, TLit '':E'']"]
    by (simp add: group_def)
  note miss = sub_nowhere [OF nlfree_listall(4) no_dt_empty_E3 [OF a]]
    sub_nowhere [OF nlfree_listall(5) no_dt_full_E3 [OF a]]
  show ?thesis
    by (cases "include_import_export c")
       (simp_all only: listall_line_def Let_def hit miss sub_tokens [OF wf] if_True if_False)
qed

lemma line_E4:
  assumes "is_number n" and "is_label v"
  shows "listall_line c (raw_line (Storage n (Some v))) = token (Storage n (Some v))"
proof -
  let ?e = "Storage n (Some v)"
  note a = assms(1-2)
  have wf: "wf_element ?e" using a by simp
  have hit: "re_sub rx_st_full [TLit ''S:'', TGrp 1, TLit '':F:'', TGrp 2] (raw_line ?e) = token ?e"
    using sub_whole' [OF m_st_full_E4 [OF a] empty_listall(7) raw_line_ne, of "[TLit ''S:'', TGrp 1, TLit '':F:'', TGrp 2]"]
    by (simp add: group_def)
  note miss = sub_nowhere [OF nlfree_listall(4) no_dt_empty_E4 [OF a]]
    sub_nowhere [OF nlfree_listall(5) no_dt_full_E4 [OF a]]
    sub_nowhere [OF nlfree_listall(6) no_st_empty_E4 [OF a]]
  show ?thesis
    by (cases "include_import_export c")
       (simp_all only: listall_line_def Let_def hit miss sub_tokens [OF wf] if_True if_False)
qed

lemma line_E5:
  assumes "is_number n" and "include_import_export c"
  shows "listall_line c (raw_line (ImportExport n None)) = token (ImportExport n None)"
proof -
  let ?e = "ImportExport n None"
  note a = assms(1-1)
  have wf: "wf_element ?e" using a by simp
  have hit: "re_sub rx_ie_empty [TLit ''I:'', TGrp 1, TLit '':E''] (raw_line ?e) = token ?e"
    using sub_whole' [OF m_ie_empty_E5 [OF a] empty_listall(8) raw_line_ne, of "[TLit ''I:'', TGrp 1, TLit '':E'']"]
    by (simp add: group_def)
  note miss = sub_nowhere [OF nlfree_listall(4) no_dt_empty_E5 [OF a]]
    sub_nowhere [OF nlfree_listall(5) no_dt_full_E5 [OF a]]
    sub_nowhere [OF nlfree_listall(6) no_st_empty_E5 [OF a]]
    sub_nowhere [OF nlfree_listall(7) no_st_full_E5 [OF a]]
  from assms show ?thesis
    by (simp only: listall_line_def Let_def hit miss sub_tokens [OF wf] if_True)
qed

lemma line_E6:
  assumes "is_number n" and "is_label v" and "include_import_export c"
  shows "listall_line c (raw_line (ImportExport n (Some v))) = token (ImportExport n (Some v))"
proof -
  let ?e = "ImportExport n (Some v)"
  note a = assms(1-2)
  have wf: "wf_element ?e" using a by simp
  have hit: "re_sub rx_ie_full [TLit ''I:'', TGrp 1, TLit '':F:'', TGrp 2] (raw_line ?e) = token ?e"
    using sub_whole' [OF m_ie_full_E6 [OF a] empty_listall(9) raw_line_ne, of "[TLit ''I:'', TGrp 1, TLit '':F:'', TGrp 2]"]
    by (simp add: group_def)
  note miss = sub_nowhere [OF nlfree_listall(4) no_dt_empty_E6 [OF a]]
    sub_nowhere [OF nlfree_listall(5) no_dt_full_E6 [OF a]]
    sub_nowhere [OF nlfree_listall(6) no_st_empty_E6 [OF a]]
    sub_nowhere [OF nlfree_listall(7) no_st_full_E6 [OF a]]
    sub_nowhere [OF nlfree_listall(8) no_ie_empty_E6 [OF a]]
  from assms show ?thesis
    by (simp only: listall_line_def Let_def hit miss sub_tokens [OF wf] if_True)
qed

lemma listall_line_token:
  "wf_element e \<Longrightarrow> (is_ie e \<Longrightarrow> include_import_export c) \<Longrightarrow>
   listall_line c (raw_line e) = token e"
  by (cases e rule: raw_line.cases)
     (simp_all only: wf_element.simps is_ie.simps line_E1 line_E2 line_E3 line_E4 line_E5 line_E6)

subsection \<open>The elements found in a dump, and the loop\<close>

lemma findall_lines:
  assumes "nlfree p" and "m p False ([[]], [], []) = None"
  shows "map group0 (re_findall p (join_lines ls))
           = concat (map (\<lambda>l. map group0 (re_findall p l)) ls)"
proof (induction ls rule: join_lines.induct)
  case 1
  from assms show ?case using m_bos [OF assms(1), of True _ False]
    by (simp add: re_findall_def)
next
  case (2 l)
  then show ?case by simp
next
  case (3 l l' ls)
  have "map group0 (re_findall p (l @ NL # join_lines (l' # ls)))
      = map group0 (findall_aux p True 0 l) @ map group0 (findall_aux p False 0 (join_lines (l' # ls)))"
    unfolding re_findall_def by (rule findall_aux_line [OF assms(1)]) simp
  also have "findall_aux p False 0 (join_lines (l' # ls)) = re_findall p (join_lines (l' # ls))"
    unfolding re_findall_def by (rule findall_aux_bos [OF assms(1), symmetric])
  finally show ?case using 3 by (simp add: re_findall_def)
qed

lemma concat_if: "concat (map (\<lambda>e. if P e then [f e] else []) xs) = map f (filter P xs)"
  by (induction xs) simp_all

lemma found_in_lines:
  assumes "list_all wf_element els"
  shows "map group0 (re_findall rx_dt_line (join_lines (map raw_line els)))
           = map raw_line (filter is_dt els)"
    and "map group0 (re_findall rx_st_line (join_lines (map raw_line els)))
           = map raw_line (filter is_st els)"
    and "map group0 (re_findall rx_ie_line (join_lines (map raw_line els)))
           = map raw_line (filter is_ie els)"
proof -
  have eq: "\<And>p P. (\<And>e. wf_element e \<Longrightarrow>
               map group0 (re_findall p (raw_line e)) = (if P e then [raw_line e] else [])) \<Longrightarrow>
            concat (map (\<lambda>l. map group0 (re_findall p l)) (map raw_line els))
              = map raw_line (filter P els)"
  proof -
    fix p P
    assume h: "\<And>e. wf_element e \<Longrightarrow>
               map group0 (re_findall p (raw_line e)) = (if P e then [raw_line e] else [])"
    have "map (\<lambda>l. map group0 (re_findall p l)) (map raw_line els)
            = map (\<lambda>e. if P e then [raw_line e] else []) els"
      using assms h by (simp add: list_all_iff)
    then show "concat (map (\<lambda>l. map group0 (re_findall p l)) (map raw_line els))
                 = map raw_line (filter P els)"
      by (simp only: concat_if)
  qed
  show "map group0 (re_findall rx_dt_line (join_lines (map raw_line els)))
           = map raw_line (filter is_dt els)"
    by (simp only: findall_lines [OF nlfree_listall(1) empty_listall(1)] eq [of rx_dt_line is_dt, OF found_dt])
  show "map group0 (re_findall rx_st_line (join_lines (map raw_line els)))
           = map raw_line (filter is_st els)"
    by (simp only: findall_lines [OF nlfree_listall(2) empty_listall(2)] eq [of rx_st_line is_st, OF found_st])
  show "map group0 (re_findall rx_ie_line (join_lines (map raw_line els)))
           = map raw_line (filter is_ie els)"
    by (simp only: findall_lines [OF nlfree_listall(3) empty_listall(3)] eq [of rx_ie_line is_ie, OF found_ie])
qed

lemma listall_elements_lines:
  "list_all wf_element els \<Longrightarrow>
   listall_elements c (join_lines (map raw_line els))
     = map raw_line (filter is_dt els @ filter is_st els
                       @ (if include_import_export c then filter is_ie els else []))"
  by (simp add: listall_elements_def found_in_lines)

lemma join_lines_snoc':
  "join_lines (ys @ [l]) = concat (map (\<lambda>x. x @ [NL]) ys) @ l"
  by (induction ys rule: join_lines.induct) simp_all

lemma join_lines_snoc:
  "join_lines (map f (xs @ [l])) = concat (map (\<lambda>x. f x @ [NL]) xs) @ f l"
  using join_lines_snoc' [of "map f xs" "f l"] by (simp add: comp_def)

lemma foldl_listall_step:
  "l \<notin> set xs \<Longrightarrow>
   foldl (listall_step c l) acc (xs @ [l])
     = acc @ concat (map (\<lambda>x. listall_line c x @ [NL]) xs) @ listall_line c l"
  by (induction xs arbitrary: acc) (auto simp: listall_step_def)

lemma listall_loop:
  assumes "distinct xs"
  shows "foldl (listall_step c (last xs)) [] xs = join_lines (map (listall_line c) xs)"
proof (cases xs rule: rev_cases)
  case Nil
  then show ?thesis by simp
next
  case (snoc ys y)
  with assms have "y \<notin> set ys" by simp
  from foldl_listall_step [OF this, of c "[]"]
  have "foldl (listall_step c y) [] (ys @ [y]) = join_lines (map (listall_line c) (ys @ [y]))"
    by (simp only: join_lines_snoc append_Nil)
  then show ?thesis by (simp only: snoc last_snoc)
qed

subsection \<open>The listing\<close>

lemma dt_filters:
  "list_all is_dt xs \<Longrightarrow> filter is_dt xs = xs \<and> filter is_st xs = [] \<and> filter is_ie xs = []"
proof (induction xs)
  case Nil
  then show ?case by simp
next
  case (Cons a xs)
  then show ?case by (cases a) simp_all
qed

lemma st_filters:
  "list_all is_st xs \<Longrightarrow> filter is_dt xs = [] \<and> filter is_st xs = xs \<and> filter is_ie xs = []"
proof (induction xs)
  case Nil
  then show ?case by simp
next
  case (Cons a xs)
  then show ?case by (cases a) simp_all
qed

lemma ie_filters:
  "list_all is_ie xs \<Longrightarrow> filter is_dt xs = [] \<and> filter is_st xs = [] \<and> filter is_ie xs = xs"
proof (induction xs)
  case Nil
  then show ?case by simp
next
  case (Cons a xs)
  then show ?case by (cases a) simp_all
qed

lemma filter_kinds:
  assumes "list_all is_dt dts" "list_all is_st sts" "list_all is_ie ies"
  shows "filter is_dt (dts @ sts @ ies) = dts" "filter is_st (dts @ sts @ ies) = sts"
        "filter is_ie (dts @ sts @ ies) = ies"
  using dt_filters [OF assms(1)] st_filters [OF assms(2)] ie_filters [OF assms(3)]
  by simp_all



end
